theory Spec2Isabelle
  imports Complex_Main "HOL-Library.Word"
begin

section \<open>Data model\<close>

text \<open>
  The attendance system is a Flask application (\<^verbatim>\<open>app.py\<close>) over an SQLAlchemy store
  (\<^verbatim>\<open>database/models.py\<close>) with an OpenCV face pipeline
  (\<^verbatim>\<open>face_recognition/face_detector.py\<close>, \<^verbatim>\<open>face_recognition/face_encoder.py\<close>,
  \<^verbatim>\<open>simple_camera.py\<close>). Library calls (OpenCV, NumPy, the clock, the file system) are
  inputs of the model: each is a field of \<open>cv_lib\<close> or an argument of the function that
  makes the call. They are taken to return normally; the \<^verbatim>\<open>except\<close> handlers of the
  source are modelled where the source or a modelled library contract can reach them.
\<close>

subsection \<open>Numbers, dates, images\<close>

text \<open>
  A NumPy float is either NaN or a number. Only comparisons of such values are modelled
  (\<^verbatim>\<open>np.isnan\<close>, \<^verbatim>\<open>>\<close>), which are exact on floats, so the number is a real.
\<close>

datatype np_float = NaN | Num real

record datetime =
  dt_date :: int
  dt_hour :: nat
  dt_minute :: nat
  dt_second :: nat
  dt_microsecond :: nat

type_synonym pixel = "8 word \<times> 8 word \<times> 8 word"
type_synonym image = "pixel list list"
type_synonym gray_image = "8 word list list"
type_synonym region = "int \<times> int \<times> int \<times> int"
type_synonym encoding = "real list"

text \<open>
  The library functions the pipeline calls. \<open>resize_px g r c\<close> is the value
  \<^verbatim>\<open>cv2.resize\<close> interpolates at row \<open>r\<close>, column \<open>c\<close> of its output;
  \<open>rectangle_px\<close> and \<open>putText_px\<close> say which pixels a drawing call paints.
\<close>

record cv_lib =
  cvtColor_px :: "pixel \<Rightarrow> 8 word"
  detectMultiScale :: "gray_image \<Rightarrow> region list"
  resize_px :: "gray_image \<Rightarrow> nat \<Rightarrow> nat \<Rightarrow> 8 word"
  corrcoef :: "encoding \<Rightarrow> encoding \<Rightarrow> np_float"
  path_exists :: "string \<Rightarrow> bool"
  imread :: "string \<Rightarrow> image option"
  rectangle_px :: "int \<times> int \<Rightarrow> int \<times> int \<Rightarrow> int \<Rightarrow> nat \<Rightarrow> nat \<Rightarrow> bool"
  putText_px :: "string \<Rightarrow> int \<times> int \<Rightarrow> nat \<Rightarrow> nat \<Rightarrow> bool"
  format_percent :: "real \<Rightarrow> string"

definition height :: "'a list list \<Rightarrow> nat" where
  "height g = length g"

definition width :: "'a list list \<Rightarrow> nat" where
  "width g = (case g of [] \<Rightarrow> 0 | row # _ \<Rightarrow> length row)"

text \<open>\<^verbatim>\<open>cv2.cvtColor(image, cv2.COLOR_BGR2GRAY)\<close>: pixel by pixel.\<close>

definition cvtColor :: "cv_lib \<Rightarrow> image \<Rightarrow> gray_image" where
  "cvtColor lib img = map (map (cvtColor_px lib)) img"

text \<open>Python's \<^verbatim>\<open>xs[a:b]\<close>: negative bounds count from the end, all bounds are clamped.\<close>

definition py_slice :: "'a list \<Rightarrow> int \<Rightarrow> int \<Rightarrow> 'a list" where
  "py_slice xs a b =
     (let n = int (length xs);
          start = (if a < 0 then max (a + n) 0 else min a n);
          stop = (if b < 0 then max (b + n) 0 else min b n)
      in take (nat (stop - start)) (drop (nat start) xs))"

text \<open>\<^verbatim>\<open>gray[y:y+h, x:x+w]\<close>\<close>

definition crop :: "gray_image \<Rightarrow> region \<Rightarrow> gray_image" where
  "crop gray reg =
     (case reg of (x, y, w, h) \<Rightarrow> map (\<lambda>row. py_slice row x (x + w)) (py_slice gray y (y + h)))"

text \<open>
  \<^verbatim>\<open>cv2.resize(face_roi, (100, 100))\<close>: raises on an empty source (\<open>None\<close> here),
  otherwise returns an array of the requested width and height.
\<close>

definition resize :: "cv_lib \<Rightarrow> gray_image \<Rightarrow> nat \<times> nat \<Rightarrow> gray_image option" where
  "resize lib g dsize =
     (case dsize of (w, h) \<Rightarrow>
        if height g = 0 \<or> width g = 0 then None
        else Some (map (\<lambda>r. map (\<lambda>c. resize_px lib g r c) [0..<w]) [0..<h]))"

text \<open>\<^verbatim>\<open>face_roi.flatten().astype(np.float32)\<close>\<close>

definition flatten_float32 :: "gray_image \<Rightarrow> encoding" where
  "flatten_float32 g = map (\<lambda>b. real (unat b)) (concat g)"

subsection \<open>Enrolled faces and detections\<close>

record known_face =
  kf_id :: int
  kf_name :: string
  kf_student_id :: string
  kf_face_encoding :: "encoding option"

record detection =
  det_student_id :: "int option"
  det_name :: string
  det_confidence :: real
  det_location :: region
  det_timestamp :: datetime

section \<open>The matcher (\<^verbatim>\<open>FaceDetector._detect_faces\<close>, inner loop)\<close>

text \<open>
  One iteration of \<^verbatim>\<open>for known_face in self.known_faces\<close>; the loop state is
  \<open>(best_match, best_confidence)\<close>.
\<close>

fun match_step ::
  "cv_lib \<Rightarrow> encoding \<Rightarrow> known_face option \<times> real \<Rightarrow> known_face \<Rightarrow> known_face option \<times> real"
where
  "match_step lib face_encoding (best_match, best_confidence) kf =
     (case kf_face_encoding kf of
        None \<Rightarrow> (best_match, best_confidence)
      | Some e \<Rightarrow>
          (case corrcoef lib face_encoding e of
             NaN \<Rightarrow> (best_match, best_confidence)
           | Num correlation \<Rightarrow>
               if correlation > best_confidence \<and> correlation > 0.3
               then (Some kf, correlation)
               else (best_match, best_confidence)))"

definition best_of :: "cv_lib \<Rightarrow> known_face list \<Rightarrow> encoding \<Rightarrow> known_face option \<times> real" where
  "best_of lib known_faces face_encoding =
     foldl (match_step lib face_encoding) (None, 0) known_faces"

text \<open>The detection appended for one face region (the \<^verbatim>\<open>if best_match\<close> that follows).\<close>

definition match_face ::
  "cv_lib \<Rightarrow> known_face list \<Rightarrow> encoding \<Rightarrow> region \<Rightarrow> datetime \<Rightarrow> detection" where
  "match_face lib known_faces face_encoding loc now =
     (case best_of lib known_faces face_encoding of
        (Some best_match, best_confidence) \<Rightarrow>
          \<lparr>det_student_id = Some (kf_id best_match), det_name = kf_name best_match,
           det_confidence = best_confidence, det_location = loc, det_timestamp = now\<rparr>
      | (None, _) \<Rightarrow>
          \<lparr>det_student_id = None, det_name = ''Unknown'',
           det_confidence = 0, det_location = loc, det_timestamp = now\<rparr>)"

text \<open>
  The correlation the loop computes for an enrolled face, when it computes a number:
  faces without an encoding are skipped, a NaN never passes the test.
\<close>

definition score :: "cv_lib \<Rightarrow> encoding \<Rightarrow> known_face \<Rightarrow> real option" where
  "score lib face_encoding kf =
     (case kf_face_encoding kf of
        None \<Rightarrow> None
      | Some e \<Rightarrow> (case corrcoef lib face_encoding e of NaN \<Rightarrow> None | Num c \<Rightarrow> Some c))"

section \<open>Pipeline state\<close>

text \<open>
  Frames are NumPy arrays: mutable objects that several fields may refer to. They live in
  a store, a list of images indexed by address; \<^verbatim>\<open>frame.copy()\<close> allocates a new cell.
\<close>

type_synonym addr = nat
type_synonym heap = "image list"

definition copy_frame :: "heap \<Rightarrow> addr \<Rightarrow> addr \<times> heap" where
  "copy_frame h a = (length h, h @ [h ! a])"

definition new_frame :: "heap \<Rightarrow> image \<Rightarrow> addr \<times> heap" where
  "new_frame h img = (length h, h @ [img])"

text \<open>A \<^verbatim>\<open>cv2.VideoCapture\<close> handle, and the properties set on it.\<close>

record capture =
  cap_index :: int
  cap_opened :: bool
  cap_props :: "(string \<times> nat) list"

definition cap_set :: "string \<Rightarrow> nat \<Rightarrow> capture \<Rightarrow> capture" where
  "cap_set prop v c = c\<lparr>cap_props := cap_props c @ [(prop, v)]\<rparr>"

text \<open>What one \<^verbatim>\<open>cap.read()\<close> gives: a frame, \<^verbatim>\<open>ret = False\<close>, or an exception.\<close>

datatype read_result = Read_frame image | Read_none | Read_raises

text \<open>The target of a \<^verbatim>\<open>threading.Thread\<close>.\<close>

datatype target = Capture_frames | Detect_faces

text \<open>
  A loop run on a finite list of inputs either leaves its \<^verbatim>\<open>while\<close> (\<open>Exited\<close>) or
  has consumed every input and is still inside it (\<open>Looping\<close>).
\<close>

datatype loop_status = Exited | Looping

subsection \<open>\<^verbatim>\<open>FaceDetector\<close>\<close>

text \<open>
  The fields of \<^verbatim>\<open>FaceDetector.__init__\<close>. \<open>fd_threads_started\<close> is not a field of the
  class: it records every \<^verbatim>\<open>Thread.start()\<close> the object has made.
\<close>

record face_detector =
  fd_camera_index :: int
  fd_cap :: "capture option"
  fd_is_running :: bool
  fd_current_frame :: "addr option"
  fd_detected_faces :: "detection list"
  fd_known_faces :: "known_face list"
  fd_capture_thread :: "target option"
  fd_detection_thread :: "target option"
  fd_threads_started :: "target list"

text \<open>
  The rows \<^verbatim>\<open>start_face_recognition\<close> passes to \<^verbatim>\<open>load_known_faces\<close> are the enrolled
  faces themselves.
\<close>

definition load_known_faces :: "known_face list \<Rightarrow> face_detector \<Rightarrow> face_detector" where
  "load_known_faces students_data d = d\<lparr>fd_known_faces := students_data\<rparr>"

text \<open>\<open>device_opens\<close>: whether \<^verbatim>\<open>cv2.VideoCapture(self.camera_index).isOpened()\<close>.\<close>

definition start_detection :: "bool \<Rightarrow> face_detector \<Rightarrow> bool \<times> face_detector" where
  "start_detection device_opens d =
     (if fd_is_running d then (True, d)
      else
        let cap = \<lparr>cap_index = fd_camera_index d, cap_opened = device_opens, cap_props = []\<rparr>
        in if \<not> cap_opened cap then (False, d\<lparr>fd_cap := Some cap\<rparr>)
           else
             (True,
              d\<lparr>fd_cap := Some (cap_set ''CAP_PROP_FRAME_HEIGHT'' 480
                                 (cap_set ''CAP_PROP_FRAME_WIDTH'' 640 cap)),
                fd_is_running := True,
                fd_capture_thread := Some Capture_frames,
                fd_detection_thread := Some Detect_faces,
                fd_threads_started := fd_threads_started d @ [Capture_frames, Detect_faces]\<rparr>))"

text \<open>
  \<^verbatim>\<open>stop_detection\<close>: the joins change no field; the handle is released and dropped;
  detections and frame are cleared under the lock.
\<close>

definition stop_detection :: "face_detector \<Rightarrow> bool \<times> face_detector" where
  "stop_detection d =
     (let d1 = d\<lparr>fd_is_running := False\<rparr>;
          d2 = (case fd_cap d1 of None \<Rightarrow> d1 | Some _ \<Rightarrow> d1\<lparr>fd_cap := None\<rparr>)
      in (True, d2\<lparr>fd_detected_faces := [], fd_current_frame := None\<rparr>))"

definition get_detected_faces :: "face_detector \<Rightarrow> detection list" where
  "get_detected_faces d = fd_detected_faces d"

text \<open>The body of the \<^verbatim>\<open>while\<close> of \<^verbatim>\<open>FaceDetector._capture_frames\<close>, for one read.\<close>

definition fd_capture_body :: "read_result \<Rightarrow> heap \<times> face_detector \<Rightarrow> heap \<times> face_detector" where
  "fd_capture_body r s =
     (case s of (h, d) \<Rightarrow>
        (case r of
           Read_frame frame \<Rightarrow>
             (case new_frame h frame of (a, h') \<Rightarrow> (h', d\<lparr>fd_current_frame := Some a\<rparr>))
         | Read_none \<Rightarrow> (h, d)
         | Read_raises \<Rightarrow> (h, d)))"

fun fd_capture_frames ::
  "read_result list \<Rightarrow> heap \<times> face_detector \<Rightarrow> loop_status \<times> heap \<times> face_detector"
where
  "fd_capture_frames [] (h, d) =
     (if fd_is_running d \<and> fd_cap d \<noteq> None then (Looping, h, d) else (Exited, h, d))"
| "fd_capture_frames (r # rs) (h, d) =
     (if fd_is_running d \<and> fd_cap d \<noteq> None
      then fd_capture_frames rs (fd_capture_body r (h, d))
      else (Exited, h, d))"






subsection \<open>Annotation\<close>

text \<open>
  \<^verbatim>\<open>cv2.rectangle\<close> and \<^verbatim>\<open>cv2.putText\<close> write into the array they are given: the cell
  at the frame's address is replaced by the image with the painted pixels recoloured.
\<close>

definition paint :: "(nat \<Rightarrow> nat \<Rightarrow> bool) \<Rightarrow> pixel \<Rightarrow> image \<Rightarrow> image" where
  "paint painted color img =
     map (\<lambda>(r, row). map (\<lambda>(c, px). if painted r c then color else px) (enumerate 0 row))
         (enumerate 0 img)"

definition rectangle ::
  "cv_lib \<Rightarrow> heap \<Rightarrow> addr \<Rightarrow> int \<times> int \<Rightarrow> int \<times> int \<Rightarrow> pixel \<Rightarrow> int \<Rightarrow> heap" where
  "rectangle lib h frame pt1 pt2 color thickness =
     h[frame := paint (rectangle_px lib pt1 pt2 thickness) color (h ! frame)]"

definition putText :: "cv_lib \<Rightarrow> heap \<Rightarrow> addr \<Rightarrow> string \<Rightarrow> int \<times> int \<Rightarrow> pixel \<Rightarrow> heap" where
  "putText lib h frame label org color =
     h[frame := paint (putText_px lib label org) color (h ! frame)]"

text \<open>Python's truth value of \<^verbatim>\<open>face['student_id']\<close>: \<^verbatim>\<open>None\<close> and \<^verbatim>\<open>0\<close> are false.\<close>

definition truthy_id :: "int option \<Rightarrow> bool" where
  "truthy_id sid = (case sid of None \<Rightarrow> False | Some i \<Rightarrow> i \<noteq> 0)"

text \<open>The body of \<^verbatim>\<open>for face in detected_faces\<close>.\<close>

definition annotate_face :: "cv_lib \<Rightarrow> addr \<Rightarrow> heap \<Rightarrow> detection \<Rightarrow> heap" where
  "annotate_face lib frame h0 face =
     (case det_location face of (x, y, w, h) \<Rightarrow>
        let (color, label) =
              (if truthy_id (det_student_id face)
               then ((0, 255, 0), det_name face @ '' ('' @ format_percent lib (det_confidence face) @ '')'')
               else ((0, 0, 255), ''Unknown''));
            h1 = rectangle lib h0 frame (x, y) (x + w, y + h) color 2;
            h2 = rectangle lib h1 frame (x, y - 30) (x + w, y) color (- 1)
        in putText lib h2 frame label (x + 5, y - 10) (255, 255, 255))"

text \<open>
  The image the three drawing calls for one detection leave, as a function of the image
  they start from: outline, filled label box, label text.
\<close>

definition draw_face :: "cv_lib \<Rightarrow> detection \<Rightarrow> image \<Rightarrow> image" where
  "draw_face lib face img =
     (case det_location face of (x, y, w, h) \<Rightarrow>
        let (color, label) =
              (if truthy_id (det_student_id face)
               then ((0, 255, 0), det_name face @ '' ('' @ format_percent lib (det_confidence face) @ '')'')
               else ((0, 0, 255), ''Unknown''))
        in paint (putText_px lib label (x + 5, y - 10)) (255, 255, 255)
             (paint (rectangle_px lib (x, y - 30) (x + w, y) (- 1)) color
                (paint (rectangle_px lib (x, y) (x + w, y + h) 2) color img)))"

definition get_current_frame_with_annotations ::
  "cv_lib \<Rightarrow> heap \<times> face_detector \<Rightarrow> addr option \<times> heap" where
  "get_current_frame_with_annotations lib s =
     (case s of (h, d) \<Rightarrow>
        (case fd_current_frame d of
           None \<Rightarrow> (None, h)
         | Some cur \<Rightarrow>
             (case copy_frame h cur of (frame, h') \<Rightarrow>
                (Some frame, foldl (annotate_face lib frame) h' (fd_detected_faces d)))))"

subsection \<open>\<^verbatim>\<open>SimpleCamera\<close>\<close>

text \<open>
  \<open>sc_capture_thread\<close> is \<open>None\<close> until \<^verbatim>\<open>start_camera\<close> creates the attribute
  (\<^verbatim>\<open>hasattr(self, 'capture_thread')\<close>); \<open>sc_threads_started\<close> records every
  \<^verbatim>\<open>Thread.start()\<close>.
\<close>

record simple_camera =
  sc_camera_index :: int
  sc_cap :: "capture option"
  sc_running :: bool
  sc_current_frame :: "addr option"
  sc_capture_thread :: "target option"
  sc_threads_started :: "target list"

definition start_camera :: "bool \<Rightarrow> simple_camera \<Rightarrow> bool \<times> simple_camera" where
  "start_camera device_opens c =
     (let cap = \<lparr>cap_index = sc_camera_index c, cap_opened = device_opens, cap_props = []\<rparr>
      in if \<not> cap_opened cap then (False, c\<lparr>sc_cap := Some cap\<rparr>)
         else
           (True,
            c\<lparr>sc_cap := Some (cap_set ''CAP_PROP_FPS'' 30
                               (cap_set ''CAP_PROP_FRAME_HEIGHT'' 480
                                 (cap_set ''CAP_PROP_FRAME_WIDTH'' 640 cap))),
              sc_running := True,
              sc_capture_thread := Some Capture_frames,
              sc_threads_started := sc_threads_started c @ [Capture_frames]\<rparr>))"

text \<open>The loop condition of \<^verbatim>\<open>SimpleCamera._capture_frames\<close>, also \<^verbatim>\<open>is_running\<close>.\<close>

definition is_running :: "simple_camera \<Rightarrow> bool" where
  "is_running c = (sc_running c \<and> (case sc_cap c of None \<Rightarrow> False | Some cap \<Rightarrow> cap_opened cap))"

text \<open>
  \<^verbatim>\<open>SimpleCamera._capture_frames\<close>: a read that gives no frame, or raises, is a
  \<^verbatim>\<open>break\<close>.
\<close>

fun sc_capture_frames ::
  "read_result list \<Rightarrow> heap \<times> simple_camera \<Rightarrow> loop_status \<times> heap \<times> simple_camera"
where
  "sc_capture_frames [] (h, c) = (if is_running c then (Looping, h, c) else (Exited, h, c))"
| "sc_capture_frames (r # rs) (h, c) =
     (if is_running c
      then (case r of
              Read_frame frame \<Rightarrow>
                (case new_frame h frame of (a, h') \<Rightarrow>
                   sc_capture_frames rs (h', c\<lparr>sc_current_frame := Some a\<rparr>))
            | Read_none \<Rightarrow> (Exited, h, c)
            | Read_raises \<Rightarrow> (Exited, h, c))
      else (Exited, h, c))"



section \<open>The encoder (\<^verbatim>\<open>FaceEncoder.encode_face_from_image\<close>)\<close>

text \<open>
  Python's \<^verbatim>\<open>max(xs, key=f)\<close>: the running maximum is replaced only by an item whose key
  is greater, so the first of several maximal items is returned; an empty argument raises.
  The key \<^verbatim>\<open>f[2] * f[3]\<close> is the product of two entries of a face rectangle inside a
  decoded image, which stays far below the range of NumPy's 32-bit integers.
\<close>

fun py_max :: "('a \<Rightarrow> int) \<Rightarrow> 'a list \<Rightarrow> 'a option" where
  "py_max key [] = None"
| "py_max key (x # xs) = Some (foldl (\<lambda>best item. if key item > key best then item else best) x xs)"

definition area :: "region \<Rightarrow> int" where
  "area f = (case f of (x, y, w, h) \<Rightarrow> w * h)"

text \<open>
  What \<^verbatim>\<open>detectMultiScale\<close> promises of a rectangle it returns: positive size, inside
  the image it was given.
\<close>

definition inside :: "gray_image \<Rightarrow> region \<Rightarrow> bool" where
  "inside gray f =
     (case f of (x, y, w, h) \<Rightarrow>
        0 \<le> x \<and> 0 \<le> y \<and> 0 < w \<and> 0 < h \<and> y + h \<le> int (length gray) \<and>
        (\<forall>row \<in> set gray. x + w \<le> int (length row)))"

definition encode_face_from_image :: "cv_lib \<Rightarrow> string \<Rightarrow> encoding option" where
  "encode_face_from_image lib image_path =
     (if \<not> path_exists lib image_path then None
      else
        (case imread lib image_path of
           None \<Rightarrow> None
         | Some img \<Rightarrow>
             let gray = cvtColor lib img;
                 faces = detectMultiScale lib gray
             in if length faces = 0 then None
                else
                  (case py_max area faces of
                     None \<Rightarrow> None
                   | Some largest_face \<Rightarrow>
                       (case resize lib (crop gray largest_face) (100, 100) of
                          None \<Rightarrow> None
                        | Some face_roi \<Rightarrow> Some (flatten_float32 face_roi)))))"

section \<open>The store (\<^verbatim>\<open>database/models.py\<close>)\<close>

text \<open>
  The columns the modelled routes read or write. \<open>st_face_encoding\<close> is the array whose
  JSON text the column holds; surrogate keys of attendance rows and creation stamps are
  left out, no modelled route reads them.
\<close>

record student =
  st_id :: int
  st_student_id :: string
  st_name :: string
  st_email :: string
  st_phone :: "string option"
  st_department :: "string option"
  st_year :: "string option"
  st_section :: "string option"
  st_face_encoding :: "encoding option"
  st_image_path :: "string option"
  st_is_active :: bool

definition set_face_encoding :: "encoding option \<Rightarrow> student \<Rightarrow> student" where
  "set_face_encoding enc s = (case enc of None \<Rightarrow> s | Some e \<Rightarrow> s\<lparr>st_face_encoding := Some e\<rparr>)"

definition get_face_encoding :: "student \<Rightarrow> encoding option" where
  "get_face_encoding s = st_face_encoding s"

record attendance_record =
  ar_student_id :: int
  ar_date :: int
  ar_time_in :: datetime
  ar_time_out :: "datetime option"
  ar_status :: string
  ar_confidence_score :: "real option"

text \<open>
  The SQLAlchemy session: \<open>db_pending\<close> holds the rows given to \<^verbatim>\<open>db.session.add\<close> and
  not yet committed. A query flushes the session first (SQLAlchemy's default), so it sees
  them; \<open>db_commits\<close> counts the calls of \<^verbatim>\<open>db.session.commit\<close>.
\<close>

record db =
  db_students :: "student list"
  db_attendance :: "attendance_record list"
  db_pending :: "attendance_record list"
  db_commits :: nat

definition all_rows :: "db \<Rightarrow> attendance_record list" where
  "all_rows d = db_attendance d @ db_pending d"

text \<open>\<^verbatim>\<open>AttendanceRecord.query.filter_by(student_id=..., date=...).first()\<close>\<close>

definition first_record :: "db \<Rightarrow> int \<Rightarrow> int \<Rightarrow> attendance_record option" where
  "first_record d sid day = find (\<lambda>r. ar_student_id r = sid \<and> ar_date r = day) (all_rows d)"

text \<open>\<^verbatim>\<open>Student.query.get(id)\<close>\<close>

definition student_get :: "db \<Rightarrow> int \<Rightarrow> student option" where
  "student_get d i = find (\<lambda>s. st_id s = i) (db_students d)"

definition session_add :: "attendance_record \<Rightarrow> db \<Rightarrow> db" where
  "session_add r d = d\<lparr>db_pending := db_pending d @ [r]\<rparr>"

definition session_commit :: "db \<Rightarrow> db" where
  "session_commit d =
     d\<lparr>db_attendance := db_attendance d @ db_pending d, db_pending := [],
       db_commits := Suc (db_commits d)\<rparr>"

section \<open>Helpers (\<^verbatim>\<open>utils/helpers.py\<close>) and formatting\<close>

definition lower_char :: "char \<Rightarrow> char" where
  "lower_char c =
     (let n = (of_char c :: nat) in if 65 \<le> n \<and> n \<le> 90 then char_of (n + 32) else c)"

definition lower :: "string \<Rightarrow> string" where
  "lower s = map lower_char s"

definition digit_char :: "nat \<Rightarrow> char" where
  "digit_char n = char_of (48 + n mod 10)"

text \<open>\<^verbatim>\<open>str(n)\<close> for a length, and the two-digit fields of \<^verbatim>\<open>strftime('%H:%M:%S')\<close>.\<close>

fun str_nat :: "nat \<Rightarrow> string" where
  "str_nat n = (if n < 10 then [digit_char n] else str_nat (n div 10) @ [digit_char n])"

definition two_digits :: "nat \<Rightarrow> string" where
  "two_digits n = [digit_char (n div 10), digit_char n]"

definition strftime_hms :: "datetime \<Rightarrow> string" where
  "strftime_hms t =
     two_digits (dt_hour t) @ '':'' @ two_digits (dt_minute t) @ '':'' @ two_digits (dt_second t)"

text \<open>\<^verbatim>\<open>allowed_file\<close>: the text after the last dot, lower-cased, is an allowed extension.\<close>

definition allowed_file :: "string \<Rightarrow> bool" where
  "allowed_file filename =
     (CHR ''.'' \<in> set filename \<and>
      lower (rev (takeWhile (\<lambda>c. c \<noteq> CHR ''.'') (rev filename)))
        \<in> set [''png'', ''jpg'', ''jpeg'', ''gif''])"

record upload =
  up_filename :: string

text \<open>
  \<^verbatim>\<open>save_uploaded_file\<close>. \<open>file_save prefix filename\<close> is the path the file was saved
  under (built from the clock and \<^verbatim>\<open>secure_filename\<close>), or \<open>None\<close> when saving raised.
\<close>

definition save_uploaded_file ::
  "(string \<Rightarrow> string \<Rightarrow> string option) \<Rightarrow> upload \<Rightarrow> string \<Rightarrow> string option" where
  "save_uploaded_file file_save file prefix =
     (if up_filename file \<noteq> [] \<and> allowed_file (up_filename file)
      then file_save prefix (up_filename file)
      else None)"

record form =
  f_student_id :: "string option"
  f_name :: "string option"
  f_email :: "string option"
  f_phone :: "string option"
  f_department :: "string option"
  f_year :: "string option"
  f_section :: "string option"

text \<open>Python's \<^verbatim>\<open>not data.get(field)\<close>: a missing or empty value.\<close>

definition blank :: "string option \<Rightarrow> bool" where
  "blank v = (case v of None \<Rightarrow> True | Some s \<Rightarrow> s = [])"

definition validate_student_data :: "form \<Rightarrow> string list" where
  "validate_student_data data =
     (if blank (f_student_id data) then [''Student Id is required''] else []) @
     (if blank (f_name data) then [''Name is required''] else []) @
     (if blank (f_email data) then [''Email is required''] else []) @
     (if blank (f_department data) then [''Department is required''] else []) @
     (case f_email data of
        None \<Rightarrow> []
      | Some email \<Rightarrow>
          if email \<noteq> [] \<and> CHR ''@'' \<notin> set email then [''Invalid email format''] else []) @
     (case f_student_id data of
        None \<Rightarrow> []
      | Some student_id \<Rightarrow>
          if student_id \<noteq> [] \<and> length student_id < 3
          then [''Student ID must be at least 3 characters''] else [])"

text \<open>
  Datetimes compare field by field. \<^verbatim>\<open>get_attendance_status\<close>; \<open>None\<close> is the
  \<^verbatim>\<open>ValueError\<close> of \<^verbatim>\<open>replace(minute=...)\<close> outside 0..59.
\<close>

definition dt_le :: "datetime \<Rightarrow> datetime \<Rightarrow> bool" where
  "dt_le a b =
     (dt_date a < dt_date b \<or> dt_date a = dt_date b \<and>
       (dt_hour a < dt_hour b \<or> dt_hour a = dt_hour b \<and>
         (dt_minute a < dt_minute b \<or> dt_minute a = dt_minute b \<and>
           (dt_second a < dt_second b \<or> dt_second a = dt_second b \<and>
              dt_microsecond a \<le> dt_microsecond b))))"

definition get_attendance_status :: "datetime option \<Rightarrow> nat \<Rightarrow> string option" where
  "get_attendance_status time_in late_threshold_minutes =
     (case time_in of
        None \<Rightarrow> Some ''Absent''
      | Some t \<Rightarrow>
          let class_start_time = t\<lparr>dt_hour := 9, dt_minute := 0, dt_second := 0, dt_microsecond := 0\<rparr>
          in if dt_le t class_start_time then Some ''Present''
             else if late_threshold_minutes > 59 then None
             else if dt_le t (class_start_time\<lparr>dt_minute := late_threshold_minutes\<rparr>)
             then Some ''Late''
             else Some ''Absent'')"

section \<open>The routes (\<^verbatim>\<open>app.py\<close>)\<close>

text \<open>
  A response is a rendered template or a redirect, each with the messages flashed
  (text and category), or a JSON object with \<^verbatim>\<open>success\<close>, \<^verbatim>\<open>message\<close> and further fields.
\<close>

record marked_student =
  ms_name :: string
  ms_student_id :: string
  ms_status :: string
  ms_confidence :: real

datatype response =
    Render string "(string \<times> string) list"
  | Redirect string "(string \<times> string) list"
  | Json bool string "(string \<times> string) list"
  | Json_marked bool string "marked_student list"

text \<open>
  The module globals. \<open>app_face_detector\<close> is \<open>None\<close> exactly when the import of the
  face modules failed (\<^verbatim>\<open>FACE_RECOGNITION_AVAILABLE = False\<close>).
\<close>

record app =
  FACE_RECOGNITION_AVAILABLE :: bool
  app_db :: db
  app_face_detector :: "face_detector option"
  app_face_recognition_active :: bool

subsection \<open>\<^verbatim>\<open>mark_manual_attendance\<close>\<close>

text \<open>\<open>today\<close> and \<open>now\<close> are \<^verbatim>\<open>date.today()\<close> and \<^verbatim>\<open>datetime.now()\<close>.\<close>

definition mark_manual_attendance ::
  "int \<Rightarrow> datetime \<Rightarrow> string option \<Rightarrow> db \<Rightarrow> response \<times> db" where
  "mark_manual_attendance today now form_student_id d =
     (if blank form_student_id
      then (Redirect ''mark_attendance'' [(''Student ID is required'', ''error'')], d)
      else
        (case form_student_id of
           None \<Rightarrow> (Redirect ''mark_attendance'' [(''Student ID is required'', ''error'')], d)
         | Some student_id \<Rightarrow>
             (case find (\<lambda>s. st_student_id s = student_id \<and> st_is_active s) (db_students d) of
                None \<Rightarrow>
                  (Redirect ''mark_attendance''
                     [(''Student with ID '' @ student_id @ '' not found'', ''error'')], d)
              | Some student \<Rightarrow>
                  (case first_record d (st_id student) today of
                     Some existing_record \<Rightarrow>
                       (Redirect ''mark_attendance''
                          [(st_name student @ '' already marked present today'', ''warning'')], d)
                   | None \<Rightarrow>
                       let status = ''Present'';
                           attendance_record =
                             \<lparr>ar_student_id = st_id student, ar_date = today, ar_time_in = now,
                              ar_time_out = None, ar_status = status,
                              ar_confidence_score = Some 1\<rparr>
                       in (Redirect ''mark_attendance''
                             [(st_name student @ '' marked '' @ lower status @ '' at ''
                                 @ strftime_hms now, ''success'')],
                           session_commit (session_add attendance_record d))))))"

subsection \<open>\<^verbatim>\<open>mark_student_present\<close>\<close>

text \<open>
  The JSON body: \<^verbatim>\<open>data.get('student_id')\<close> is \<open>None\<close> for a missing or null key;
  \<^verbatim>\<open>data.get('confidence', 0)\<close> is 0 for a missing key and \<^verbatim>\<open>None\<close> for a null one.
  A request whose body is no JSON object (\<open>Inl e\<close>) raises before any query, and the
  handler answers with the text \<open>e\<close> of the exception.
\<close>

datatype json_number = Missing | Json_null | Json_num real

record mark_request =
  mr_student_id :: "int option"
  mr_confidence :: json_number

definition confidence_of :: "json_number \<Rightarrow> real option" where
  "confidence_of c = (case c of Missing \<Rightarrow> Some 0 | Json_null \<Rightarrow> None | Json_num x \<Rightarrow> Some x)"

definition mark_student_present ::
  "int \<Rightarrow> datetime \<Rightarrow> string + mark_request \<Rightarrow> db \<Rightarrow> response \<times> db" where
  "mark_student_present today now body d =
     (case body of
        Inl e \<Rightarrow> (Json False e [], d)
      | Inr data \<Rightarrow>
          let confidence = confidence_of (mr_confidence data)
          in if \<not> truthy_id (mr_student_id data) then (Json False ''Student ID required'' [], d)
             else
               (case mr_student_id data of
                  None \<Rightarrow> (Json False ''Student ID required'' [], d)
                | Some student_id \<Rightarrow>
                    (case student_get d student_id of
                       None \<Rightarrow> (Json False ''Student not found'' [], d)
                     | Some student \<Rightarrow>
                         (case first_record d student_id today of
                            Some existing_record \<Rightarrow>
                              (Json False (st_name student @ '' already marked present today'') [], d)
                          | None \<Rightarrow>
                              let status = ''Present'';
                                  attendance_record =
                                    \<lparr>ar_student_id = student_id, ar_date = today, ar_time_in = now,
                                     ar_time_out = None, ar_status = status,
                                     ar_confidence_score = confidence\<rparr>
                              in (Json True (st_name student @ '' marked '' @ lower status)
                                    [(''student_name'', st_name student), (''status'', status),
                                     (''time'', strftime_hms now)],
                                  session_commit (session_add attendance_record d))))))"

subsection \<open>\<^verbatim>\<open>auto_mark_attendance\<close>\<close>

text \<open>The body of \<^verbatim>\<open>for face in detected_faces\<close>; the loop state is the session and
  \<^verbatim>\<open>marked_students\<close>.\<close>

fun auto_mark_step ::
  "int \<Rightarrow> datetime \<Rightarrow> db \<times> marked_student list \<Rightarrow> detection \<Rightarrow> db \<times> marked_student list"
where
  "auto_mark_step today now (d, marked_students) face =
     (if truthy_id (det_student_id face) \<and> det_confidence face > 0.3
      then
        (case det_student_id face of
           None \<Rightarrow> (d, marked_students)
         | Some face_student_id \<Rightarrow>
             (case student_get d face_student_id of
                None \<Rightarrow> (d, marked_students)
              | Some student \<Rightarrow>
                  (case first_record d face_student_id today of
                     Some existing_record \<Rightarrow> (d, marked_students)
                   | None \<Rightarrow>
                       let status = ''Present'';
                           attendance_record =
                             \<lparr>ar_student_id = face_student_id, ar_date = today, ar_time_in = now,
                              ar_time_out = None, ar_status = status,
                              ar_confidence_score = Some (det_confidence face)\<rparr>
                       in (session_add attendance_record d,
                           marked_students @
                             [\<lparr>ms_name = st_name student, ms_student_id = st_student_id student,
                               ms_status = status, ms_confidence = det_confidence face\<rparr>]))))
      else (d, marked_students))"

definition auto_mark_attendance :: "int \<Rightarrow> datetime \<Rightarrow> app \<Rightarrow> response \<times> app" where
  "auto_mark_attendance today now a =
     (if \<not> FACE_RECOGNITION_AVAILABLE a
      then (Json False ''Face recognition not available'' [], a)
      else
        (case app_face_detector a of
           None \<Rightarrow> (Json False ''Face recognition not active'' [], a)
         | Some face_detector \<Rightarrow>
             if \<not> app_face_recognition_active a
             then (Json False ''Face recognition not active'' [], a)
             else
               let detected_faces = get_detected_faces face_detector;
                   (d, marked_students) =
                     foldl (auto_mark_step today now) (app_db a, []) detected_faces
               in if marked_students \<noteq> []
                  then (Json_marked True
                          (''Marked '' @ str_nat (length marked_students) @ '' students present'')
                          marked_students,
                        a\<lparr>app_db := session_commit d\<rparr>)
                  else (Json False ''No new students to mark present'' [], a\<lparr>app_db := d\<rparr>)))"

text \<open>
  The guards of the loop body that do not look at the attendance table: a student id that
  is neither \<^verbatim>\<open>None\<close> nor \<^verbatim>\<open>0\<close>, a confidence above 0.3, a row of that id in
  \<^verbatim>\<open>students\<close>.
\<close>

definition passes_guards :: "db \<Rightarrow> detection \<Rightarrow> int \<Rightarrow> bool" where
  "passes_guards d face i \<longleftrightarrow>
     det_student_id face = Some i \<and> i \<noteq> 0 \<and> det_confidence face > 0.3 \<and> student_get d i \<noteq> None"

text \<open>
  A row as the loop adds it for one of \<open>faces\<close>, on a session \<open>d\<close>: present, stamped
  with the clock readings, for a student that had no row for \<open>today\<close>, with the confidence
  of a detection of that student that passes the guards.
\<close>

definition good_row ::
  "db \<Rightarrow> int \<Rightarrow> datetime \<Rightarrow> detection list \<Rightarrow> attendance_record \<Rightarrow> bool" where
  "good_row d today now faces r \<longleftrightarrow>
     ar_status r = ''Present'' \<and> ar_date r = today \<and> ar_time_in r = now \<and>
     first_record d (ar_student_id r) today = None \<and>
     (\<exists>face \<in> set faces. passes_guards d face (ar_student_id r) \<and>
        ar_confidence_score r = Some (det_confidence face))"

text \<open>The (student, date) pairs of the attendance rows, in table order.\<close>

definition keys :: "db \<Rightarrow> (int \<times> int) list" where
  "keys d = map (\<lambda>r. (ar_student_id r, ar_date r)) (all_rows d)"

text \<open>A sequence of marking requests, each with the clock readings it was served at.\<close>

datatype mark_call =
    Manual int datetime "string option"
  | Detected int datetime "string + mark_request"

fun serve :: "db \<Rightarrow> mark_call \<Rightarrow> response \<times> db" where
  "serve d (Manual today now form_student_id) = mark_manual_attendance today now form_student_id d"
| "serve d (Detected today now body) = mark_student_present today now body d"

definition mark_calls :: "db \<Rightarrow> mark_call list \<Rightarrow> db" where
  "mark_calls d calls = foldl (\<lambda>d c. snd (serve d c)) d calls"

subsection \<open>\<^verbatim>\<open>start_face_recognition\<close>, \<^verbatim>\<open>stop_face_recognition\<close>\<close>

definition students_data_of :: "student list \<Rightarrow> known_face list" where
  "students_data_of students =
     List.map_filter
       (\<lambda>student.
          case get_face_encoding student of
            None \<Rightarrow> None
          | Some face_encoding \<Rightarrow>
              Some \<lparr>kf_id = st_id student, kf_name = st_name student,
                    kf_student_id = st_student_id student,
                    kf_face_encoding = Some face_encoding\<rparr>)
       (filter st_is_active students)"

definition start_face_recognition :: "bool \<Rightarrow> app \<Rightarrow> response \<times> app" where
  "start_face_recognition device_opens a =
     (if \<not> FACE_RECOGNITION_AVAILABLE a
      then (Json False
              ''Face recognition libraries not installed. Please run setup_face_recognition.py'' [],
            a)
      else if app_face_recognition_active a
      then (Json False ''Face recognition already active'' [], a)
      else
        (case app_face_detector a of
           None \<Rightarrow> (Json False ''Face detector not initialized'' [], a)
         | Some face_detector \<Rightarrow>
             let students_data = students_data_of (db_students (app_db a))
             in if students_data = []
                then (Json False
                        ''No students with face encodings found. Please register students first.'' [],
                      a)
                else
                  (case start_detection device_opens (load_known_faces students_data face_detector) of
                     (True, fd) \<Rightarrow>
                       (Json True
                          (''Face recognition started with '' @ str_nat (length students_data)
                             @ '' known faces'') [],
                        a\<lparr>app_face_detector := Some fd, app_face_recognition_active := True\<rparr>)
                   | (False, fd) \<Rightarrow>
                       (Json False ''Failed to start face recognition'' [],
                        a\<lparr>app_face_detector := Some fd\<rparr>))))"

definition stop_face_recognition :: "app \<Rightarrow> response \<times> app" where
  "stop_face_recognition a =
     (let a1 = (case app_face_detector a of
                  None \<Rightarrow> a
                | Some face_detector \<Rightarrow>
                    if FACE_RECOGNITION_AVAILABLE a
                    then a\<lparr>app_face_detector := Some (snd (stop_detection face_detector))\<rparr>
                    else a)
      in (Json True ''Face recognition stopped'' [], a1\<lparr>app_face_recognition_active := False\<rparr>))"

subsection \<open>\<^verbatim>\<open>register_student\<close> (POST)\<close>

record request =
  rq_form :: form
  rq_image :: "upload option"

text \<open>
  \<^verbatim>\<open>Student.id\<close> is the integer primary key the store assigns: one more than the
  largest in the table.
\<close>

definition next_student_id :: "student list \<Rightarrow> int" where
  "next_student_id students = foldl max 0 (map st_id students) + 1"

text \<open>
  The two unique columns of \<^verbatim>\<open>Student\<close>: a commit that would repeat one raises, and the
  handler answers \<^verbatim>\<open>Error registering student\<close>.
\<close>

definition violates_unique :: "student list \<Rightarrow> student \<Rightarrow> bool" where
  "violates_unique students s =
     (\<exists>t \<in> set students. st_student_id t = st_student_id s \<or> st_email t = st_email s)"

definition register_student ::
  "cv_lib \<Rightarrow> (string \<Rightarrow> string \<Rightarrow> string option) \<Rightarrow> request \<Rightarrow> app \<Rightarrow> response \<times> app" where
  "register_student lib file_save rq a =
     (let data = rq_form rq;
          errors = validate_student_data data
      in if errors \<noteq> [] then (Render ''register_student.html'' (map (\<lambda>e. (e, ''error'')) errors), a)
         else
           (case (f_student_id data, f_name data, f_email data) of
              (Some student_id, Some name, Some email) \<Rightarrow>
                (case find (\<lambda>s. st_student_id s = student_id) (db_students (app_db a)) of
                   Some existing_student \<Rightarrow>
                     (Render ''register_student.html'' [(''Student ID already exists'', ''error'')], a)
                 | None \<Rightarrow>
                     (case rq_image rq of
                        None \<Rightarrow>
                          (Render ''register_student.html'' [(''Student photo is required'', ''error'')], a)
                      | Some file \<Rightarrow>
                          if up_filename file = []
                          then (Render ''register_student.html'' [(''No image selected'', ''error'')], a)
                          else
                            (case save_uploaded_file file_save file (''student_'' @ student_id @ ''_'') of
                               None \<Rightarrow>
                                 (Render ''register_student.html''
                                    [(''Error uploading image'', ''error'')], a)
                             | Some image_path \<Rightarrow>
                                 let face_encoding =
                                       (if FACE_RECOGNITION_AVAILABLE a
                                        then encode_face_from_image lib image_path else None)
                                 in if FACE_RECOGNITION_AVAILABLE a \<and> face_encoding = None
                                    then (Render ''register_student.html''
                                            [(''No face detected in the image. Please upload a clear photo.'',
                                              ''error'')], a)
                                    else
                                      let student =
                                            set_face_encoding face_encoding
                                              \<lparr>st_id = next_student_id (db_students (app_db a)),
                                               st_student_id = student_id, st_name = name,
                                               st_email = email, st_phone = f_phone data,
                                               st_department = f_department data,
                                               st_year = f_year data, st_section = f_section data,
                                               st_face_encoding = None,
                                               st_image_path = Some image_path,
                                               st_is_active = True\<rparr>
                                      in if violates_unique (db_students (app_db a)) student
                                         then (Render ''register_student.html''
                                                 [(''Error registering student'', ''error'')], a)
                                         else
                                           (Redirect ''students''
                                              [(''Student registered successfully!'', ''success'')],
                                            a\<lparr>app_db := (app_db a)
                                                 \<lparr>db_students := db_students (app_db a) @ [student],
                                                  db_commits := Suc (db_commits (app_db a))\<rparr>\<rparr>))))
            | _ \<Rightarrow> (Render ''register_student.html'' [(''Error registering student'', ''error'')], a)))"

section \<open>Example inputs\<close>

text \<open>A small library, store and pipeline state on which the theorems below are run.\<close>

definition example_image :: image where
  "example_image =
     [[(1, 2, 3), (4, 5, 6), (7, 8, 9)],
      [(10, 11, 12), (13, 14, 15), (16, 17, 18)],
      [(19, 20, 21), (22, 23, 24), (25, 26, 27)]]"

definition example_lib :: cv_lib where
  "example_lib =
     \<lparr>cvtColor_px = (\<lambda>(b, g, r). g),
      detectMultiScale =
        (\<lambda>g. if length g = 3 then [(0, 0, 1, 3), (0, 0, 3, 1), (1, 0, 2, 3), (0, 1, 3, 2)] else []),
      resize_px = (\<lambda>g r c. g ! (r * length g div 100) ! (c * length (hd g) div 100)),
      corrcoef = (\<lambda>a b. case b of [] \<Rightarrow> NaN | x # _ \<Rightarrow> Num x),
      path_exists = (\<lambda>p. p = ''a.jpg'' \<or> p = ''blank.jpg'' \<or> p = ''broken.jpg''),
      imread =
        (\<lambda>p. if p = ''a.jpg'' then Some example_image
             else if p = ''blank.jpg'' then Some [[(0, 0, 0)]] else None),
      rectangle_px = (\<lambda>(x1, y1) (x2, y2) t r c. x1 \<le> int c \<and> int c \<le> x2 \<and> y1 \<le> int r \<and> int r \<le> y2),
      putText_px = (\<lambda>label (x, y) r c. int r = y \<and> int c = x),
      format_percent = (\<lambda>x. ''90.0%'')\<rparr>"

definition example_faces :: "known_face list" where
  "example_faces =
     [\<lparr>kf_id = 1, kf_name = ''Asha'', kf_student_id = ''S001'', kf_face_encoding = Some [2 / 10]\<rparr>,
      \<lparr>kf_id = 2, kf_name = ''Bilal'', kf_student_id = ''S002'', kf_face_encoding = Some [9 / 10]\<rparr>,
      \<lparr>kf_id = 3, kf_name = ''Chen'', kf_student_id = ''S003'', kf_face_encoding = Some [9 / 10]\<rparr>,
      \<lparr>kf_id = 4, kf_name = ''Dana'', kf_student_id = ''S004'', kf_face_encoding = Some []\<rparr>,
      \<lparr>kf_id = 5, kf_name = ''Eli'', kf_student_id = ''S005'', kf_face_encoding = None\<rparr>]"

definition example_now :: datetime where
  "example_now = \<lparr>dt_date = 739000, dt_hour = 10, dt_minute = 5, dt_second = 7, dt_microsecond = 0\<rparr>"

definition example_detector :: face_detector where
  "example_detector =
     \<lparr>fd_camera_index = 0, fd_cap = None, fd_is_running = False, fd_current_frame = None,
      fd_detected_faces = [], fd_known_faces = [], fd_capture_thread = None,
      fd_detection_thread = None, fd_threads_started = []\<rparr>"

definition example_detection :: detection where
  "example_detection =
     \<lparr>det_student_id = Some 1, det_name = ''Asha'', det_confidence = 9 / 10,
      det_location = (0, 1, 2, 2), det_timestamp = example_now\<rparr>"

definition example_camera :: simple_camera where
  "example_camera =
     \<lparr>sc_camera_index = 0, sc_cap = None, sc_running = False, sc_current_frame = None,
      sc_capture_thread = None, sc_threads_started = []\<rparr>"

definition example_students :: "student list" where
  "example_students =
     [\<lparr>st_id = 1, st_student_id = ''S001'', st_name = ''Asha'', st_email = ''asha@example.org'',
       st_phone = None, st_department = Some ''CS'', st_year = None, st_section = None,
       st_face_encoding = Some [2 / 10], st_image_path = None, st_is_active = True\<rparr>,
      \<lparr>st_id = 2, st_student_id = ''S002'', st_name = ''Bilal'', st_email = ''bilal@example.org'',
       st_phone = None, st_department = Some ''CS'', st_year = None, st_section = None,
       st_face_encoding = Some [9 / 10], st_image_path = None, st_is_active = False\<rparr>]"

definition example_db :: db where
  "example_db =
     \<lparr>db_students = example_students, db_attendance = [], db_pending = [], db_commits = 0\<rparr>"

definition example_detections :: "detection list" where
  "example_detections =
     [example_detection,
      example_detection\<lparr>det_confidence := 8 / 10\<rparr>,
      \<lparr>det_student_id = Some 2, det_name = ''Bilal'', det_confidence = 2 / 10,
       det_location = (5, 5, 2, 2), det_timestamp = example_now\<rparr>,
      \<lparr>det_student_id = None, det_name = ''Unknown'', det_confidence = 0,
       det_location = (9, 9, 2, 2), det_timestamp = example_now\<rparr>]"

definition example_app :: app where
  "example_app =
     \<lparr>FACE_RECOGNITION_AVAILABLE = True, app_db = example_db,
      app_face_detector = Some example_detector, app_face_recognition_active = False\<rparr>"

text \<open>
  A registration whose photo \<^verbatim>\<open>blank.jpg\<close> shows no face, and a saver that stores
  every upload under its own name.
\<close>

definition example_request :: request where
  "example_request =
     \<lparr>rq_form =
        \<lparr>f_student_id = Some ''S009'', f_name = Some ''Zed'', f_email = Some ''zed@example.org'',
         f_phone = None, f_department = Some ''CS'', f_year = None, f_section = None\<rparr>,
      rq_image = Some \<lparr>up_filename = ''blank.jpg''\<rparr>\<rparr>"

definition example_file_save :: "string \<Rightarrow> string \<Rightarrow> string option" where
  "example_file_save prefix filename = Some filename"

text \<open>A session in progress that has published \<open>faces\<close>.\<close>

definition example_session :: "detection list \<Rightarrow> app" where
  "example_session faces =
     example_app
       \<lparr>app_face_detector :=
          Some (example_detector\<lparr>fd_is_running := True, fd_detected_faces := faces\<rparr>),
        app_face_recognition_active := True\<rparr>"

section \<open>The matcher selects the first best candidate above the threshold\<close>

lemma match_step_score:
  "match_step lib enc (bm, bc) kf =
     (case score lib enc kf of
        None \<Rightarrow> (bm, bc)
      | Some c \<Rightarrow> if c > bc \<and> c > 0.3 then (Some kf, c) else (bm, bc))"
  by (simp add: score_def split: option.splits np_float.splits)

declare match_step.simps [simp del]

lemma score_Some:
  "score lib enc kf = Some c \<longleftrightarrow>
     (\<exists>e. kf_face_encoding kf = Some e \<and> corrcoef lib enc e = Num c)"
  by (auto simp: score_def split: option.splits np_float.splits)

lemma best_of_snoc:
  "best_of lib (kfs @ [kf]) enc = match_step lib enc (best_of lib kfs enc) kf"
  by (simp add: best_of_def)

lemma best_of_none:
  "fst (best_of lib kfs enc) = None \<Longrightarrow>
     snd (best_of lib kfs enc) = 0 \<and>
     (\<forall>k \<in> set kfs. \<forall>c. score lib enc k = Some c \<longrightarrow> c \<le> 0.3)"
proof (induction kfs rule: rev_induct)
  case Nil
  show ?case by (simp add: best_of_def)
next
  case (snoc kf kfs)
  obtain bm bc where b: "best_of lib kfs enc = (bm, bc)"
    by (cases "best_of lib kfs enc")
  from snoc.prems b have bm: "bm = None"
    by (auto simp: best_of_snoc match_step_score split: option.splits if_splits)
  with snoc.IH b have bc: "bc = 0"
    and old: "\<forall>k \<in> set kfs. \<forall>c. score lib enc k = Some c \<longrightarrow> c \<le> 0.3"
    by simp_all
  from snoc.prems b bm bc have new: "\<forall>c. score lib enc kf = Some c \<longrightarrow> c \<le> 0.3"
    by (auto simp: best_of_snoc match_step_score split: option.splits if_splits)
  from snoc.prems b bm bc have "snd (best_of lib (kfs @ [kf]) enc) = 0"
    by (auto simp: best_of_snoc match_step_score split: option.splits if_splits)
  with old new show ?case by auto
qed

lemma best_of_some:
  "best_of lib kfs enc = (Some k, bc) \<Longrightarrow>
     \<exists>pre post. kfs = pre @ k # post \<and> score lib enc k = Some bc \<and> bc > 0.3 \<and>
        (\<forall>p \<in> set pre. \<forall>c. score lib enc p = Some c \<longrightarrow> c < bc) \<and>
        (\<forall>p \<in> set post. \<forall>c. score lib enc p = Some c \<longrightarrow> c \<le> bc)"
proof (induction kfs arbitrary: k bc rule: rev_induct)
  case Nil
  then show ?case by (simp add: best_of_def)
next
  case (snoc kf kfs)
  obtain bm0 bc0 where b: "best_of lib kfs enc = (bm0, bc0)"
    by (cases "best_of lib kfs enc")
  show ?case
  proof (cases "\<exists>c. score lib enc kf = Some c \<and> c > bc0 \<and> c > 0.3")
    case True
    then obtain c where c: "score lib enc kf = Some c" "c > bc0" "c > 0.3" by blast
    with snoc.prems b have sel: "k = kf" "bc = c"
      by (simp_all add: best_of_snoc match_step_score)
    have "\<forall>p \<in> set kfs. \<forall>c'. score lib enc p = Some c' \<longrightarrow> c' < c"
    proof (cases bm0)
      case None
      with b best_of_none[of lib kfs enc]
      have "\<forall>p \<in> set kfs. \<forall>c'. score lib enc p = Some c' \<longrightarrow> c' \<le> 0.3"
        by simp
      with c(3) show ?thesis by fastforce
    next
      case (Some k0)
      with b snoc.IH[of k0 bc0] obtain pre post where
        "kfs = pre @ k0 # post" "score lib enc k0 = Some bc0"
        "\<forall>p \<in> set pre. \<forall>c. score lib enc p = Some c \<longrightarrow> c < bc0"
        "\<forall>p \<in> set post. \<forall>c. score lib enc p = Some c \<longrightarrow> c \<le> bc0"
        by blast
      with c(2) show ?thesis by fastforce
    qed
    with sel c have "kfs @ [kf] = kfs @ k # [] \<and> score lib enc k = Some bc \<and> bc > 0.3 \<and>
        (\<forall>p \<in> set kfs. \<forall>c. score lib enc p = Some c \<longrightarrow> c < bc) \<and>
        (\<forall>p \<in> set []. \<forall>c. score lib enc p = Some c \<longrightarrow> c \<le> bc)"
      by simp
    then show ?thesis by blast
  next
    case False
    with snoc.prems b have same: "bm0 = Some k" "bc0 = bc"
      by (auto simp: best_of_snoc match_step_score split: option.splits if_splits)
    with b snoc.IH[of k bc] obtain pre post where pp:
      "kfs = pre @ k # post" "score lib enc k = Some bc" "bc > 0.3"
      "\<forall>p \<in> set pre. \<forall>c. score lib enc p = Some c \<longrightarrow> c < bc"
      "\<forall>p \<in> set post. \<forall>c. score lib enc p = Some c \<longrightarrow> c \<le> bc"
      by blast
    from False same pp(3) have "\<forall>c. score lib enc kf = Some c \<longrightarrow> c \<le> bc"
      by fastforce
    with pp have "kfs @ [kf] = pre @ k # (post @ [kf]) \<and> score lib enc k = Some bc \<and> bc > 0.3 \<and>
        (\<forall>p \<in> set pre. \<forall>c. score lib enc p = Some c \<longrightarrow> c < bc) \<and>
        (\<forall>p \<in> set (post @ [kf]). \<forall>c. score lib enc p = Some c \<longrightarrow> c \<le> bc)"
      by auto
    then show ?thesis by blast
  qed
qed

text \<open>
  Claim C1. For every live encoding and list of enrolled faces, with the threshold 0.3 of
  the source: when some enrolled face has a correlation that is a number above 0.3, the
  detection names an enrolled face \<open>k\<close> whose correlation is a number (not NaN), is above
  0.3 and is the detection's confidence; no enrolled face has a higher correlation, and
  every face listed before \<open>k\<close> has a strictly lower one (the earlier face wins a tie).
  When no enrolled face exceeds the threshold, the detection has no student id, the name
  \<open>Unknown\<close> and confidence 0.
\<close>

theorem match_face_selects_first_best:
  "let d = match_face lib kfs enc loc now in
     if \<exists>k \<in> set kfs. \<exists>c. score lib enc k = Some c \<and> c > 0.3
     then \<exists>pre k post e.
            kfs = pre @ k # post \<and>
            det_student_id d = Some (kf_id k) \<and> det_name d = kf_name k \<and>
            kf_face_encoding k = Some e \<and> corrcoef lib enc e = Num (det_confidence d) \<and>
            det_confidence d > 0.3 \<and>
            (\<forall>p \<in> set pre. \<forall>c. score lib enc p = Some c \<longrightarrow> c < det_confidence d) \<and>
            (\<forall>p \<in> set post. \<forall>c. score lib enc p = Some c \<longrightarrow> c \<le> det_confidence d)
     else det_student_id d = None \<and> det_name d = ''Unknown'' \<and> det_confidence d = 0"
proof -
  obtain bm bc where b: "best_of lib kfs enc = (bm, bc)"
    by (cases "best_of lib kfs enc")
  show ?thesis
  proof (cases bm)
    case None
    with b best_of_none[of lib kfs enc]
    have low: "\<forall>k \<in> set kfs. \<forall>c. score lib enc k = Some c \<longrightarrow> c \<le> 0.3"
      by simp
    then have "\<not> (\<exists>k \<in> set kfs. \<exists>c. score lib enc k = Some c \<and> c > 0.3)"
      by fastforce
    with None b show ?thesis
      by (simp add: match_face_def Let_def)
  next
    case (Some k)
    with b best_of_some[of lib kfs enc k bc] obtain pre post where pp:
      "kfs = pre @ k # post" "score lib enc k = Some bc" "bc > 0.3"
      "\<forall>p \<in> set pre. \<forall>c. score lib enc p = Some c \<longrightarrow> c < bc"
      "\<forall>p \<in> set post. \<forall>c. score lib enc p = Some c \<longrightarrow> c \<le> bc"
      by blast
    from pp(2) obtain e where e: "kf_face_encoding k = Some e" "corrcoef lib enc e = Num bc"
      by (auto simp: score_Some)
    from Some b have d: "match_face lib kfs enc loc now =
        \<lparr>det_student_id = Some (kf_id k), det_name = kf_name k,
         det_confidence = bc, det_location = loc, det_timestamp = now\<rparr>"
      by (simp add: match_face_def)
    from pp(1,2,3) have ex: "\<exists>k \<in> set kfs. \<exists>c. score lib enc k = Some c \<and> c > 0.3"
      by auto
    from pp e have "kfs = pre @ k # post \<and> kf_face_encoding k = Some e \<and>
        corrcoef lib enc e = Num bc \<and> bc > 0.3 \<and>
        (\<forall>p \<in> set pre. \<forall>c. score lib enc p = Some c \<longrightarrow> c < bc) \<and>
        (\<forall>p \<in> set post. \<forall>c. score lib enc p = Some c \<longrightarrow> c \<le> bc)"
      by simp
    then have "\<exists>pre k' post e.
        kfs = pre @ k' # post \<and> Some (kf_id k) = Some (kf_id k') \<and> kf_name k = kf_name k' \<and>
        kf_face_encoding k' = Some e \<and> corrcoef lib enc e = Num bc \<and> bc > 0.3 \<and>
        (\<forall>p \<in> set pre. \<forall>c. score lib enc p = Some c \<longrightarrow> c < bc) \<and>
        (\<forall>p \<in> set post. \<forall>c. score lib enc p = Some c \<longrightarrow> c \<le> bc)"
      by blast
    with ex d show ?thesis
      by (simp add: Let_def)
  qed
qed

theorem match_face_selects_first_best_witness:
  "score example_lib [] (example_faces ! 1) = Some (9 / 10) \<and>
   score example_lib [] (example_faces ! 2) = Some (9 / 10) \<and>
   det_student_id (match_face example_lib example_faces [] (0, 0, 1, 1) example_now) = Some 2 \<and>
   det_confidence (match_face example_lib example_faces [] (0, 0, 1, 1) example_now) = 9 / 10 \<and>
   det_student_id (match_face example_lib (take 1 example_faces) [] (0, 0, 1, 1) example_now) = None"
  using match_face_selects_first_best [of example_lib example_faces "[]" "(0, 0, 1, 1)" example_now]
  by (simp add: match_face_def best_of_def match_step_score score_def example_faces_def
      example_lib_def)

section \<open>Starting twice\<close>

lemma str_nat_1: "str_nat (Suc 0) = ''1''"
  by code_simp

lemma start_detection_running: "fd_is_running d \<Longrightarrow> start_detection dev d = (True, d)"
  by (simp add: start_detection_def)

lemma start_detection_success_running:
  "fst (start_detection dev d) \<Longrightarrow> fd_is_running (snd (start_detection dev d))"
  by (simp add: start_detection_def Let_def split: if_splits)

lemma start_face_recognition_success_active:
  assumes eq: "start_face_recognition dev a = (Json True m x, a')"
  shows "FACE_RECOGNITION_AVAILABLE a' \<and> app_face_recognition_active a'"
proof -
  from eq have 1: "FACE_RECOGNITION_AVAILABLE a"
    by (cases "FACE_RECOGNITION_AVAILABLE a") (simp_all add: start_face_recognition_def)
  from eq 1 have 2: "\<not> app_face_recognition_active a"
    by (cases "app_face_recognition_active a") (simp_all add: start_face_recognition_def)
  from eq 1 2 obtain fd0 where 3: "app_face_detector a = Some fd0"
    by (cases "app_face_detector a") (simp_all add: start_face_recognition_def)
  from eq 1 2 3 have 4: "students_data_of (db_students (app_db a)) \<noteq> []"
    by (cases "students_data_of (db_students (app_db a)) = []")
      (simp_all add: start_face_recognition_def Let_def)
  obtain ok fd where 5:
    "start_detection dev (load_known_faces (students_data_of (db_students (app_db a))) fd0) = (ok, fd)"
    by (cases "start_detection dev (load_known_faces (students_data_of (db_students (app_db a))) fd0)")
  from eq 1 2 3 4 5
  have "a' = a\<lparr>app_face_detector := Some fd, app_face_recognition_active := True\<rparr>"
    by (cases ok) (simp_all add: start_face_recognition_def Let_def)
  with 1 show ?thesis by simp
qed

text \<open>
  Claim C4, as stated, fails for \<^verbatim>\<open>FaceDetector.start_detection\<close>: on a detector that a
  first call has started, the second call returns \<^verbatim>\<open>True\<close>.
\<close>

theorem start_detection_twice_counterexample:
  "fst (start_detection True example_detector) = True \<and>
   fst (start_detection True (snd (start_detection True example_detector))) = True"
  by (simp add: start_detection_def example_detector_def Let_def)

text \<open>
  Claim C4, amended. A second \<^verbatim>\<open>start_detection\<close> after a successful one returns
  \<^verbatim>\<open>True\<close> and leaves the detector as it is, so the threads started are those of the first
  call; a second \<^verbatim>\<open>start_face_recognition\<close> request after a successful one, with no stop
  between them, is answered with failure (\<^verbatim>\<open>Face recognition already active\<close>) and leaves
  the application state, the detector in it included, as it is.
\<close>

theorem second_start_spawns_nothing:
  "(fst (start_detection dev d) \<longrightarrow>
      start_detection dev' (snd (start_detection dev d)) = (True, snd (start_detection dev d))) \<and>
   (start_face_recognition dev a = (Json True m x, a') \<longrightarrow>
      start_face_recognition dev' a' = (Json False ''Face recognition already active'' [], a'))"
proof (intro conjI impI)
  assume "fst (start_detection dev d)"
  then have "fd_is_running (snd (start_detection dev d))"
    by (rule start_detection_success_running)
  then show "start_detection dev' (snd (start_detection dev d)) = (True, snd (start_detection dev d))"
    by (rule start_detection_running)
next
  assume "start_face_recognition dev a = (Json True m x, a')"
  then have "FACE_RECOGNITION_AVAILABLE a' \<and> app_face_recognition_active a'"
    by (rule start_face_recognition_success_active)
  then show "start_face_recognition dev' a' = (Json False ''Face recognition already active'' [], a')"
    by (simp add: start_face_recognition_def)
qed

theorem second_start_spawns_nothing_witness:
  "fst (start_detection True example_detector) \<and>
   fst (start_detection True (snd (start_detection True example_detector))) \<and>
   fd_threads_started (snd (start_detection True (snd (start_detection True example_detector))))
     = [Capture_frames, Detect_faces] \<and>
   fst (start_face_recognition True example_app)
     = Json True ''Face recognition started with 1 known faces'' [] \<and>
   fst (start_face_recognition True (snd (start_face_recognition True example_app)))
     = Json False ''Face recognition already active'' []"
  using second_start_spawns_nothing [where dev = True and d = example_detector and dev' = True
      and a = example_app and m = "''Face recognition started with 1 known faces''" and x = "[]"
      and a' = "snd (start_face_recognition True example_app)"]
  by (simp add: start_detection_def start_face_recognition_def example_detector_def
      example_app_def example_db_def example_students_def students_data_of_def
      List.map_filter_def get_face_encoding_def load_known_faces_def Let_def cap_set_def
      str_nat_1 del: str_nat.simps)

section \<open>Stopping clears the published state\<close>








section \<open>Failed reads in the capture loops\<close>

lemma fd_capture_body_keeps:
  "fd_capture_body r (h, d) = (h', d') \<Longrightarrow>
     fd_is_running d' = fd_is_running d \<and> fd_cap d' = fd_cap d"
  by (auto simp: fd_capture_body_def new_frame_def split: read_result.splits)

lemma fd_capture_frames_looping:
  "fd_is_running d \<Longrightarrow> fd_cap d \<noteq> None \<Longrightarrow>
     \<exists>h' d'. fd_capture_frames rs (h, d) = (Looping, h', d') \<and> fd_is_running d' \<and> fd_cap d' \<noteq> None"
proof (induction rs arbitrary: h d)
  case Nil
  then show ?case by simp
next
  case (Cons r rs)
  obtain h1 d1 where b: "fd_capture_body r (h, d) = (h1, d1)"
    by (cases "fd_capture_body r (h, d)")
  with Cons.prems fd_capture_body_keeps[OF b] have "fd_is_running d1" "fd_cap d1 \<noteq> None"
    by simp_all
  from Cons.IH[OF this] Cons.prems b show ?case by simp
qed

lemma fd_capture_frames_append:
  "fd_capture_frames rs (h, d) = (Looping, h', d') \<Longrightarrow>
     fd_capture_frames (rs @ rs') (h, d) = fd_capture_frames rs' (h', d')"
proof (induction rs arbitrary: h d)
  case Nil
  then show ?case by (cases rs') (auto split: if_splits)
next
  case (Cons r rs)
  obtain h1 d1 where b: "fd_capture_body r (h, d) = (h1, d1)"
    by (cases "fd_capture_body r (h, d)")
  with Cons show ?case by (auto split: if_splits)
qed

text \<open>
  Claim C9, as stated, fails for \<^verbatim>\<open>SimpleCamera._capture_frames\<close>: on a started camera
  one read without a frame ends the loop.
\<close>

theorem sc_capture_frames_counterexample:
  "is_running (snd (start_camera True example_camera)) \<and>
   fst (sc_capture_frames [Read_none, Read_frame example_image]
          ([], snd (start_camera True example_camera))) = Exited"
  by (simp add: start_camera_def example_camera_def is_running_def Let_def cap_set_def)

text \<open>
  Claim C9, amended. In \<^verbatim>\<open>FaceDetector._capture_frames\<close>, while the detector is running
  with a camera handle, a read that gives no frame or raises changes no field, the loop
  is still running after any sequence of reads, and a frame read after them is stored as
  the current frame. \<^verbatim>\<open>SimpleCamera._capture_frames\<close> leaves its loop at the first such
  read.
\<close>

theorem fd_capture_frames_retries:
  assumes "fd_is_running d" and "fd_cap d \<noteq> None"
  shows "fd_capture_body Read_none (h, d) = (h, d) \<and>
         fd_capture_body Read_raises (h, d) = (h, d) \<and>
         fst (fd_capture_frames rs (h, d)) = Looping \<and>
         (\<exists>h' d' a. fd_capture_frames (rs @ [Read_frame frame]) (h, d) = (Looping, h', d') \<and>
             fd_current_frame d' = Some a \<and> a < length h' \<and> h' ! a = frame) \<and>
         fst (sc_capture_frames (Read_none # rs) (h, c)) = Exited \<and>
         fst (sc_capture_frames (Read_raises # rs) (h, c)) = Exited"
proof -
  from fd_capture_frames_looping[OF assms, of rs h] obtain h1 d1 where
    l: "fd_capture_frames rs (h, d) = (Looping, h1, d1)" "fd_is_running d1" "fd_cap d1 \<noteq> None"
    by blast
  have "fd_capture_frames (rs @ [Read_frame frame]) (h, d) =
      fd_capture_frames [Read_frame frame] (h1, d1)"
    using l(1) by (rule fd_capture_frames_append)
  also have "\<dots> = (Looping, h1 @ [frame], d1\<lparr>fd_current_frame := Some (length h1)\<rparr>)"
    using l(2,3) by (simp add: fd_capture_body_def new_frame_def)
  finally have "\<exists>h' d' a. fd_capture_frames (rs @ [Read_frame frame]) (h, d) = (Looping, h', d') \<and>
             fd_current_frame d' = Some a \<and> a < length h' \<and> h' ! a = frame"
    by simp
  with l(1) show ?thesis
    by (simp add: fd_capture_body_def)
qed

theorem fd_capture_frames_retries_witness:
  "fd_is_running (snd (start_detection True example_detector)) \<and>
   fd_cap (snd (start_detection True example_detector)) \<noteq> None \<and>
   fst (fd_capture_frames [Read_none, Read_raises, Read_none]
          ([], snd (start_detection True example_detector))) = Looping"
  using fd_capture_frames_retries [of "snd (start_detection True example_detector)"
      "[]" "[Read_none, Read_raises, Read_none]" example_image example_camera]
  by (simp add: start_detection_def example_detector_def Let_def cap_set_def)

section \<open>The encoder takes the largest face\<close>

lemma foldl_max_first:
  "foldl (\<lambda>best item. if key item > key best then item else best) x xs = f \<Longrightarrow>
     (f = x \<and> (\<forall>g \<in> set xs. key g \<le> key x)) \<or>
     (\<exists>pre post. xs = pre @ f # post \<and> key x < key f \<and>
        (\<forall>g \<in> set pre. key g < key f) \<and> (\<forall>g \<in> set post. key g \<le> key f))"
  for key :: "'a \<Rightarrow> int"
proof (induction xs arbitrary: x)
  case Nil
  then show ?case by simp
next
  case (Cons y ys)
  show ?case
  proof (cases "key y > key x")
    case True
    with Cons.prems have "foldl (\<lambda>best item. if key item > key best then item else best) y ys = f"
      by simp
    from Cons.IH[OF this] show ?thesis
    proof
      assume a: "f = y \<and> (\<forall>g \<in> set ys. key g \<le> key y)"
      with True have "y # ys = [] @ f # ys \<and> key x < key f \<and>
        (\<forall>g \<in> set []. key g < key f) \<and> (\<forall>g \<in> set ys. key g \<le> key f)"
        by simp
      then show ?thesis by blast
    next
      assume "\<exists>pre post. ys = pre @ f # post \<and> key y < key f \<and>
        (\<forall>g \<in> set pre. key g < key f) \<and> (\<forall>g \<in> set post. key g \<le> key f)"
      then obtain pre post where p: "ys = pre @ f # post" "key y < key f"
        "\<forall>g \<in> set pre. key g < key f" "\<forall>g \<in> set post. key g \<le> key f"
        by blast
      with True have "y # ys = (y # pre) @ f # post \<and> key x < key f \<and>
        (\<forall>g \<in> set (y # pre). key g < key f) \<and> (\<forall>g \<in> set post. key g \<le> key f)"
        by simp
      then show ?thesis by blast
    qed
  next
    case False
    with Cons.prems have "foldl (\<lambda>best item. if key item > key best then item else best) x ys = f"
      by simp
    from Cons.IH[OF this] show ?thesis
    proof
      assume "f = x \<and> (\<forall>g \<in> set ys. key g \<le> key x)"
      with False show ?thesis by simp
    next
      assume "\<exists>pre post. ys = pre @ f # post \<and> key x < key f \<and>
        (\<forall>g \<in> set pre. key g < key f) \<and> (\<forall>g \<in> set post. key g \<le> key f)"
      then obtain pre post where p: "ys = pre @ f # post" "key x < key f"
        "\<forall>g \<in> set pre. key g < key f" "\<forall>g \<in> set post. key g \<le> key f"
        by blast
      with False have "y # ys = (y # pre) @ f # post \<and> key x < key f \<and>
        (\<forall>g \<in> set (y # pre). key g < key f) \<and> (\<forall>g \<in> set post. key g \<le> key f)"
        by simp
      then show ?thesis by blast
    qed
  qed
qed

lemma py_max_first:
  "py_max key xs = Some f \<Longrightarrow>
     \<exists>pre post. xs = pre @ f # post \<and>
        (\<forall>g \<in> set pre. key g < key f) \<and> (\<forall>g \<in> set post. key g \<le> key f)"
  for key :: "'a \<Rightarrow> int"
proof (cases xs)
  case Nil
  assume "py_max key xs = Some f"
  with Nil show ?thesis by simp
next
  case (Cons x ys)
  assume "py_max key xs = Some f"
  with Cons have "foldl (\<lambda>best item. if key item > key best then item else best) x ys = f"
    by simp
  from foldl_max_first[OF this] show ?thesis
  proof
    assume "f = x \<and> (\<forall>g \<in> set ys. key g \<le> key x)"
    with Cons have "xs = [] @ f # ys \<and> (\<forall>g \<in> set []. key g < key f) \<and> (\<forall>g \<in> set ys. key g \<le> key f)"
      by simp
    then show ?thesis by blast
  next
    assume "\<exists>pre post. ys = pre @ f # post \<and> key x < key f \<and>
        (\<forall>g \<in> set pre. key g < key f) \<and> (\<forall>g \<in> set post. key g \<le> key f)"
    then obtain pre post where p: "ys = pre @ f # post" "key x < key f"
        "\<forall>g \<in> set pre. key g < key f" "\<forall>g \<in> set post. key g \<le> key f"
      by blast
    with Cons have "xs = (x # pre) @ f # post \<and> (\<forall>g \<in> set (x # pre). key g < key f) \<and>
        (\<forall>g \<in> set post. key g \<le> key f)"
      by simp
    then show ?thesis by blast
  qed
qed

lemma py_max_nonempty: "xs \<noteq> [] \<Longrightarrow> \<exists>f. py_max key xs = Some f"
  by (cases xs) simp_all

lemma length_grid: "length (concat (map (\<lambda>r. map (g r) [0..<w]) rs)) = length rs * w"
  by (induction rs) simp_all

lemma width_grid: "0 < h \<Longrightarrow> width (map (\<lambda>r. map (g r) [0..<w]) [0..<h]) = w"
  by (cases h) (simp_all add: width_def upt_conv_Cons del: upt_Suc)

lemma resize_length:
  "resize lib g (w, h) = Some roi \<Longrightarrow> length (flatten_float32 roi) = h * w"
  by (auto simp: resize_def flatten_float32_def length_grid split: if_splits)

lemma py_slice_length:
  "0 \<le> a \<Longrightarrow> a \<le> b \<Longrightarrow> b \<le> int (length xs) \<Longrightarrow> length (py_slice xs a b) = nat (b - a)"
  by (simp add: py_slice_def Let_def min_def) arith

lemma py_slice_subset: "set (py_slice xs a b) \<subseteq> set xs"
  unfolding py_slice_def Let_def
  by (meson set_take_subset set_drop_subset subset_trans)

lemma crop_nonempty:
  assumes "inside gray f"
  shows "height (crop gray f) \<noteq> 0 \<and> width (crop gray f) \<noteq> 0"
proof -
  obtain x y w h where f: "f = (x, y, w, h)" by (cases f)
  with assms have b: "0 \<le> x" "0 \<le> y" "0 < w" "0 < h" "y + h \<le> int (length gray)"
    "\<forall>row \<in> set gray. x + w \<le> int (length row)"
    by (simp_all add: inside_def)
  let ?rows = "py_slice gray y (y + h)"
  from b have lr: "length ?rows = nat h"
    using py_slice_length[of y "y + h" gray] by simp
  with b obtain r rs where rows: "?rows = r # rs"
    by (cases ?rows) auto
  then have "r \<in> set gray" using py_slice_subset[of gray y "y + h"] by auto
  with b have "x + w \<le> int (length r)" by blast
  with b have "length (py_slice r x (x + w)) = nat w"
    using py_slice_length[of x "x + w" r] by simp
  with b f rows show ?thesis
    by (simp add: crop_def height_def width_def)
qed

lemma take_drop_nth:
  "m + n \<le> length xs \<Longrightarrow> take n (drop m xs) = map (\<lambda>i. xs ! (m + i)) [0..<n]"
  by (auto simp: list_eq_iff_nth_eq)

lemma py_slice_nth:
  assumes "0 \<le> a" and "a \<le> b" and "b \<le> int (length xs)"
  shows "py_slice xs a b = map (\<lambda>i. xs ! (nat a + i)) [0..<nat (b - a)]"
proof -
  from assms have "nat a + nat (b - a) \<le> length xs" by arith
  then have "take (nat (b - a)) (drop (nat a) xs) = map (\<lambda>i. xs ! (nat a + i)) [0..<nat (b - a)]"
    by (rule take_drop_nth)
  with assms show ?thesis
    by (simp add: py_slice_def Let_def min_def)
qed

lemma crop_pixels:
  assumes "inside gray (x, y, w, h)"
  shows "crop gray (x, y, w, h) =
     map (\<lambda>i. map (\<lambda>j. gray ! (nat y + i) ! (nat x + j)) [0..<nat w]) [0..<nat h]"
proof -
  from assms have b: "0 \<le> x" "0 \<le> y" "0 < w" "0 < h" "y + h \<le> int (length gray)"
    "\<forall>row \<in> set gray. x + w \<le> int (length row)"
    by (simp_all add: inside_def)
  from b have rows: "py_slice gray y (y + h) = map (\<lambda>i. gray ! (nat y + i)) [0..<nat h]"
    using py_slice_nth[of y "y + h" gray] by simp
  have row: "py_slice (gray ! (nat y + i)) x (x + w) = map (\<lambda>j. gray ! (nat y + i) ! (nat x + j)) [0..<nat w]"
    if "i < nat h" for i
  proof -
    from that b have "nat y + i < length gray" by arith
    then have "gray ! (nat y + i) \<in> set gray" by simp
    with b have "x + w \<le> int (length (gray ! (nat y + i)))" by blast
    with b show ?thesis
      using py_slice_nth[of x "x + w" "gray ! (nat y + i)"] by simp
  qed
  have "crop gray (x, y, w, h) = map (\<lambda>i. py_slice (gray ! (nat y + i)) x (x + w)) [0..<nat h]"
    by (simp add: crop_def rows o_def)
  also have "\<dots> = map (\<lambda>i. map (\<lambda>j. gray ! (nat y + i) ! (nat x + j)) [0..<nat w]) [0..<nat h]"
    by (rule map_cong) (simp_all add: row)
  finally show ?thesis .
qed

lemma concat_grid:
  "concat (map (\<lambda>r. map (g r) [0..<w]) [0..<h]) = map (\<lambda>k. g (k div w) (k mod w)) [0..<h * w]"
proof (induction h)
  case 0
  show ?case by simp
next
  case (Suc h)
  have "map (\<lambda>k. g (k div w) (k mod w)) [h * w..<h * w + w] = map (g h) [0..<w]"
    by (auto simp: list_eq_iff_nth_eq)
  moreover have "[0..<h * w + w] = [0..<h * w] @ [h * w..<h * w + w]"
    by (rule upt_add_eq_append) simp
  moreover have "Suc h * w = h * w + w" by simp
  moreover have "[0..<Suc h] = [0..<h] @ [h]" by simp
  ultimately show ?case using Suc by (simp only: map_append concat_append list.map concat.simps append_Nil2)
qed

lemma resize_grid:
  "height g \<noteq> 0 \<Longrightarrow> width g \<noteq> 0 \<Longrightarrow>
     resize lib g (w, h) = Some (map (\<lambda>r. map (\<lambda>c. resize_px lib g r c) [0..<w]) [0..<h])"
  by (simp add: resize_def)

lemma flatten_grid:
  "flatten_float32 (map (\<lambda>r. map (g r) [0..<w]) [0..<h]) =
     map (\<lambda>k. real (unat (g (k div w) (k mod w)))) [0..<h * w]"
  by (simp add: flatten_float32_def concat_grid o_def)

lemma encode_face_from_image_steps:
  assumes "path_exists lib p" and "imread lib p = Some img"
    and "py_max area (detectMultiScale lib (cvtColor lib img)) = Some f"
    and "resize lib (crop (cvtColor lib img) f) (100, 100) = Some roi"
  shows "encode_face_from_image lib p = Some (flatten_float32 roi)"
proof -
  from assms(3) have "detectMultiScale lib (cvtColor lib img) \<noteq> []"
    by (cases "detectMultiScale lib (cvtColor lib img)") simp_all
  with assms show ?thesis
    by (simp add: encode_face_from_image_def Let_def)
qed

text \<open>
  Claim C6. \<^verbatim>\<open>encode_face_from_image\<close> returns \<^verbatim>\<open>None\<close> when the path does not exist,
  when the file cannot be read, and when the detector finds no face in the grayscale
  image. Otherwise, the detector returning rectangles of positive size inside the image,
  the encoding is that of a rectangle \<open>(x, y, w, h)\<close> of the detector's output whose area
  \<open>w * h\<close> no other rectangle exceeds and every earlier rectangle falls short of; it has
  10000 values, and its value \<open>k\<close> is the value the resizing gives, at row \<open>k div 100\<close>
  and column \<open>k mod 100\<close>, for the patch of \<open>h\<close> rows and \<open>w\<close> columns whose pixel
  \<open>(i, j)\<close> is the gray value of the image at row \<open>y + i\<close>, column \<open>x + j\<close>.
\<close>

theorem encode_face_from_image_largest_face:
  "(\<not> path_exists lib p \<longrightarrow> encode_face_from_image lib p = None) \<and>
   (imread lib p = None \<longrightarrow> encode_face_from_image lib p = None) \<and>
   (\<forall>img. imread lib p = Some img \<and> detectMultiScale lib (map (map (cvtColor_px lib)) img) = [] \<longrightarrow>
      encode_face_from_image lib p = None) \<and>
   (\<forall>img. path_exists lib p \<and> imread lib p = Some img \<and>
      detectMultiScale lib (map (map (cvtColor_px lib)) img) \<noteq> [] \<and>
      (\<forall>(x, y, w, h) \<in> set (detectMultiScale lib (map (map (cvtColor_px lib)) img)).
          0 \<le> x \<and> 0 \<le> y \<and> 0 < w \<and> 0 < h \<and> y + h \<le> int (length img) \<and>
          (\<forall>row \<in> set img. x + w \<le> int (length row))) \<longrightarrow>
      (\<exists>pre x y w h post enc.
         detectMultiScale lib (map (map (cvtColor_px lib)) img) = pre @ (x, y, w, h) # post \<and>
         (\<forall>(x', y', w', h') \<in> set pre. w' * h' < w * h) \<and>
         (\<forall>(x', y', w', h') \<in> set post. w' * h' \<le> w * h) \<and>
         encode_face_from_image lib p = Some enc \<and>
         length enc = 10000 \<and>
         enc = map (\<lambda>k. real (unat (resize_px lib
                   (map (\<lambda>i. map (\<lambda>j. cvtColor_px lib (img ! (nat y + i) ! (nat x + j)))
                                [0..<nat w]) [0..<nat h])
                   (k div 100) (k mod 100))))
                 [0..<10000]))"
proof (intro conjI allI impI)
  show "encode_face_from_image lib p = None" if "\<not> path_exists lib p"
    using that by (simp add: encode_face_from_image_def)
  show "encode_face_from_image lib p = None" if "imread lib p = None"
    using that by (simp add: encode_face_from_image_def)
  show "encode_face_from_image lib p = None"
    if "imread lib p = Some img \<and> detectMultiScale lib (map (map (cvtColor_px lib)) img) = []" for img
    using that by (simp add: encode_face_from_image_def cvtColor_def Let_def)
next
  fix img
  let ?gray = "map (map (cvtColor_px lib)) img"
  let ?faces = "detectMultiScale lib ?gray"
  assume a: "path_exists lib p \<and> imread lib p = Some img \<and> ?faces \<noteq> [] \<and>
      (\<forall>(x, y, w, h) \<in> set ?faces.
          0 \<le> x \<and> 0 \<le> y \<and> 0 < w \<and> 0 < h \<and> y + h \<le> int (length img) \<and>
          (\<forall>row \<in> set img. x + w \<le> int (length row)))"
  then obtain f where f: "py_max area ?faces = Some f"
    using py_max_nonempty[of ?faces area] by blast
  from py_max_first[OF f] obtain pre post where pp: "?faces = pre @ f # post"
    "\<forall>g \<in> set pre. area g < area f" "\<forall>g \<in> set post. area g \<le> area f"
    by blast
  obtain x y w h where fx: "f = (x, y, w, h)" by (cases f) auto
  from pp(1) have "f \<in> set ?faces" by simp
  with a fx have b: "0 \<le> x" "0 \<le> y" "0 < w" "0 < h" "y + h \<le> int (length img)"
    "\<forall>row \<in> set img. x + w \<le> int (length row)"
    by auto
  then have ins: "inside ?gray (x, y, w, h)"
    by (auto simp: inside_def)
  let ?patch = "map (\<lambda>i. map (\<lambda>j. cvtColor_px lib (img ! (nat y + i) ! (nat x + j))) [0..<nat w]) [0..<nat h]"
  have px: "?gray ! (nat y + i) ! (nat x + j) = cvtColor_px lib (img ! (nat y + i) ! (nat x + j))"
    if "i < nat h" "j < nat w" for i j
  proof -
    from that b have r: "nat y + i < length img" by arith
    then have "img ! (nat y + i) \<in> set img" by simp
    with b have "x + w \<le> int (length (img ! (nat y + i)))" by blast
    with that b have "nat x + j < length (img ! (nat y + i))" by arith
    with r show ?thesis by simp
  qed
  have "crop ?gray (x, y, w, h) =
      map (\<lambda>i. map (\<lambda>j. ?gray ! (nat y + i) ! (nat x + j)) [0..<nat w]) [0..<nat h]"
    using ins by (rule crop_pixels)
  also have "\<dots> = ?patch"
    by (intro map_cong refl) (simp add: px)
  finally have cr: "crop ?gray (x, y, w, h) = ?patch" .
  from crop_nonempty[OF ins] have ne: "height ?patch \<noteq> 0" "width ?patch \<noteq> 0"
    by (simp_all add: cr)
  define roi where "roi = map (\<lambda>r. map (\<lambda>c. resize_px lib ?patch r c) [0..<100]) [0..<(100::nat)]"
  define enc where
    "enc = map (\<lambda>k. real (unat (resize_px lib ?patch (k div 100) (k mod 100)))) [0..<(10000::nat)]"
  have rs: "resize lib (crop (cvtColor lib img) f) (100, 100) = Some roi"
    unfolding roi_def cvtColor_def fx cr using ne by (rule resize_grid)
  have sq: "(100::nat) * 100 = 10000" by simp
  have fl: "flatten_float32 roi = enc"
    unfolding roi_def enc_def
    using flatten_grid[of "resize_px lib ?patch" 100 100] by (simp only: sq)
  from a f have "encode_face_from_image lib p = Some (flatten_float32 roi)"
    using rs by (intro encode_face_from_image_steps) (simp_all only: cvtColor_def)
  with fl have enc: "encode_face_from_image lib p = Some enc" by (simp only:)
  have len: "length enc = 10000"
    unfolding enc_def by (simp only: length_map length_upt diff_zero)
  have eq: "enc = map (\<lambda>k. real (unat (resize_px lib ?patch (k div 100) (k mod 100)))) [0..<10000]"
    by (rule enc_def)
  from pp(2) fx have p1: "\<forall>(x', y', w', h') \<in> set pre. w' * h' < w * h"
    by (auto simp: area_def)
  from pp(3) fx have p2: "\<forall>(x', y', w', h') \<in> set post. w' * h' \<le> w * h"
    by (auto simp: area_def)
  from pp(1) fx have p0: "?faces = pre @ (x, y, w, h) # post" by simp
  from p0 p1 p2 enc len eq
  show "\<exists>pre x y w h post enc.
         ?faces = pre @ (x, y, w, h) # post \<and>
         (\<forall>(x', y', w', h') \<in> set pre. w' * h' < w * h) \<and>
         (\<forall>(x', y', w', h') \<in> set post. w' * h' \<le> w * h) \<and>
         encode_face_from_image lib p = Some enc \<and>
         length enc = 10000 \<and>
         enc = map (\<lambda>k. real (unat (resize_px lib
                   (map (\<lambda>i. map (\<lambda>j. cvtColor_px lib (img ! (nat y + i) ! (nat x + j)))
                                [0..<nat w]) [0..<nat h])
                   (k div 100) (k mod 100))))
                 [0..<10000]"
    by blast
qed

lemma nth_map_upt0: "k < n \<Longrightarrow> map f [0..<n] ! k = f k"
  by simp

theorem encode_face_from_image_largest_face_witness:
  "path_exists example_lib ''a.jpg'' \<and> imread example_lib ''a.jpg'' = Some example_image \<and>
   detectMultiScale example_lib (map (map (cvtColor_px example_lib)) example_image)
     = [(0, 0, 1, 3), (0, 0, 3, 1), (1, 0, 2, 3), (0, 1, 3, 2)] \<and>
   length (the (encode_face_from_image example_lib ''a.jpg'')) = 10000 \<and>
   the (encode_face_from_image example_lib ''a.jpg'') ! 0 = 5 \<and>
   the (encode_face_from_image example_lib ''a.jpg'') ! 99 = 8 \<and>
   the (encode_face_from_image example_lib ''a.jpg'') ! 5000 = 14 \<and>
   the (encode_face_from_image example_lib ''a.jpg'') ! 9999 = 26 \<and>
   encode_face_from_image example_lib ''missing.jpg'' = None \<and>
   encode_face_from_image example_lib ''broken.jpg'' = None \<and>
   encode_face_from_image example_lib ''blank.jpg'' = None"
proof -
  let ?faces = "detectMultiScale example_lib (map (map (cvtColor_px example_lib)) example_image)"
  have faces: "?faces = [(0, 0, 1, 3), (0, 0, 3, 1), (1, 0, 2, 3), (0, 1, 3, 2)]"
    by (simp add: example_lib_def example_image_def)
  have io: "path_exists example_lib ''a.jpg''" "imread example_lib ''a.jpg'' = Some example_image"
    "\<not> path_exists example_lib ''missing.jpg''" "imread example_lib ''broken.jpg'' = None"
    "imread example_lib ''blank.jpg'' = Some [[(0, 0, 0)]]"
    "detectMultiScale example_lib (map (map (cvtColor_px example_lib)) [[(0, 0, 0)]]) = []"
    by (simp_all add: example_lib_def)
  have ins: "\<forall>(x, y, w, h) \<in> set ?faces.
          0 \<le> x \<and> 0 \<le> y \<and> 0 < w \<and> 0 < h \<and> y + h \<le> int (length example_image) \<and>
          (\<forall>row \<in> set example_image. x + w \<le> int (length row))"
    unfolding faces by (simp add: example_image_def)
  note spec = encode_face_from_image_largest_face
  from spec[of example_lib "''a.jpg''"] io(1,2) faces ins
  obtain pre x y w h post enc where
    sel: "?faces = pre @ (x, y, w, h) # post"
      "\<forall>(x', y', w', h') \<in> set pre. w' * h' < w * h"
      "\<forall>(x', y', w', h') \<in> set post. w' * h' \<le> w * h"
    and enc: "encode_face_from_image example_lib ''a.jpg'' = Some enc" "length enc = 10000"
      "enc = map (\<lambda>k. real (unat (resize_px example_lib
                   (map (\<lambda>i. map (\<lambda>j. cvtColor_px example_lib (example_image ! (nat y + i) ! (nat x + j)))
                                [0..<nat w]) [0..<nat h])
                   (k div 100) (k mod 100))))
                 [0..<10000]"
    by (auto simp del: upt_Suc)
  from sel have f: "x = 1 \<and> y = 0 \<and> w = 2 \<and> h = 3"
    unfolding faces by (auto simp: append_eq_Cons_conv Cons_eq_append_conv)
  have patch: "map (\<lambda>i. map (\<lambda>j. cvtColor_px example_lib (example_image ! (nat y + i) ! (nat x + j)))
                                [0..<nat w]) [0..<nat h] = [[5, 8], [14, 17], [23, 26]]"
    using f by (simp add: example_lib_def example_image_def upt_conv_Cons)
  have v: "enc ! k = real (unat (resize_px example_lib [[5, 8], [14, 17], [23, 26]] (k div 100) (k mod 100)))"
    if "k < 10000" for k
    unfolding enc(3) patch using that by (rule nth_map_upt0)
  have v0: "enc ! 0 = 5" using v[of 0] by (simp add: example_lib_def)
  have v1: "enc ! 99 = 8" using v[of 99] by (simp add: example_lib_def)
  have v2: "enc ! 5000 = 14" using v[of 5000] by (simp add: example_lib_def)
  have v3: "enc ! 9999 = 26" using v[of 9999] by (simp add: example_lib_def)
  from spec[of example_lib "''missing.jpg''"] io
  have m: "encode_face_from_image example_lib ''missing.jpg'' = None" by blast
  from spec[of example_lib "''broken.jpg''"] io
  have b: "encode_face_from_image example_lib ''broken.jpg'' = None" by blast
  from spec[of example_lib "''blank.jpg''"] io
  have z: "encode_face_from_image example_lib ''blank.jpg'' = None" by blast
  from io(1,2) faces enc(1,2) v0 v1 v2 v3 m b z show ?thesis by (simp only: option.sel simp_thms)
qed

section \<open>Annotation draws on a copy\<close>

lemma paint_rows_lengths:
  "map length (map (\<lambda>(r, row). map (g r) (enumerate 0 row)) (enumerate n img)) = map length img"
  by (induction img arbitrary: n) simp_all

lemma paint_lengths: "map length (paint m c img) = map length img"
  unfolding paint_def by (rule paint_rows_lengths)

lemma draw_face_lengths: "map length (draw_face lib face img) = map length img"
  by (simp add: draw_face_def paint_lengths split: prod.splits)

lemma height_lengths: "height img = length (map length img)"
  by (simp add: height_def)

lemma width_lengths: "width img = (case map length img of [] \<Rightarrow> 0 | n # _ \<Rightarrow> n)"
  by (cases img) (simp_all add: width_def)

lemma annotate_face_draws:
  "frame < length h \<Longrightarrow>
     annotate_face lib frame h face = h[frame := draw_face lib face (h ! frame)]"
  by (simp add: annotate_face_def draw_face_def rectangle_def putText_def Let_def
      split: prod.splits)

lemma foldl_annotate_face:
  "frame < length h \<Longrightarrow>
     foldl (annotate_face lib frame) h faces =
       h[frame := foldl (\<lambda>img face. draw_face lib face img) (h ! frame) faces]"
proof (induction faces arbitrary: h)
  case Nil
  then show ?case by simp
next
  case (Cons face faces)
  then show ?case by (simp add: annotate_face_draws)
qed

lemma foldl_draw_face_lengths:
  "map length (foldl (\<lambda>img face. draw_face lib face img) img faces) = map length img"
  by (induction faces arbitrary: img) (simp_all add: draw_face_lengths)

text \<open>
  Claim C8. With a stored frame, \<^verbatim>\<open>get_current_frame_with_annotations\<close> returns a frame
  at a new address, of the height and width of the stored frame, which is the stored
  image with the drawing of each detection applied in turn (one outline, one label box and
  one label per detection); the stored frame, and every other frame that existed before
  the call, holds the same pixels after it.
\<close>

theorem annotation_copies_frame:
  assumes "fd_current_frame d = Some cur" and "cur < length h"
  shows "\<exists>frame h'.
           get_current_frame_with_annotations lib (h, d) = (Some frame, h') \<and>
           frame \<noteq> cur \<and> frame = length h \<and> length h' = Suc (length h) \<and>
           height (h' ! frame) = height (h ! cur) \<and> width (h' ! frame) = width (h ! cur) \<and>
           h' ! frame = foldl (\<lambda>img face. draw_face lib face img) (h ! cur) (fd_detected_faces d) \<and>
           h' ! cur = h ! cur \<and>
           (\<forall>a < length h. h' ! a = h ! a)"
proof -
  let ?h0 = "h @ [h ! cur]"
  let ?img = "foldl (\<lambda>img face. draw_face lib face img) (h ! cur) (fd_detected_faces d)"
  let ?h' = "?h0[length h := ?img]"
  have "foldl (annotate_face lib (length h)) ?h0 (fd_detected_faces d) = ?h'"
    using foldl_annotate_face[of "length h" ?h0 lib "fd_detected_faces d"] by simp
  with assms have r: "get_current_frame_with_annotations lib (h, d) = (Some (length h), ?h')"
    by (simp add: get_current_frame_with_annotations_def copy_frame_def)
  have new: "?h' ! length h = ?img" by simp
  have old: "\<forall>a < length h. ?h' ! a = h ! a" by (simp add: nth_append)
  have "map length ?img = map length (h ! cur)" by (rule foldl_draw_face_lengths)
  then have dims: "height ?img = height (h ! cur)" "width ?img = width (h ! cur)"
    by (simp_all add: height_lengths width_lengths)
  from assms(2) old have cur: "?h' ! cur = h ! cur" by blast
  from assms(2) have ne: "length h \<noteq> cur" by simp
  have len: "length ?h' = Suc (length h)" by simp
  from r ne len new dims cur old show ?thesis
    by (intro exI[of _ "length h"] exI[of _ ?h']) (simp only: simp_thms)
qed

theorem annotation_copies_frame_witness:
  "fd_current_frame (example_detector\<lparr>fd_current_frame := Some 0,
        fd_detected_faces := [example_detection]\<rparr>) = Some 0 \<and>
   (0::nat) < length [example_image] \<and>
   fst (get_current_frame_with_annotations example_lib
          ([example_image], example_detector\<lparr>fd_current_frame := Some 0,
             fd_detected_faces := [example_detection]\<rparr>)) = Some 1 \<and>
   snd (get_current_frame_with_annotations example_lib
          ([example_image], example_detector\<lparr>fd_current_frame := Some 0,
             fd_detected_faces := [example_detection]\<rparr>)) ! 0 = example_image \<and>
   snd (get_current_frame_with_annotations example_lib
          ([example_image], example_detector\<lparr>fd_current_frame := Some 0,
             fd_detected_faces := [example_detection]\<rparr>)) ! 1
     = [[(0, 255, 0), (0, 255, 0), (0, 255, 0)],
        [(0, 255, 0), (0, 255, 0), (0, 255, 0)],
        [(0, 255, 0), (0, 255, 0), (0, 255, 0)]]"
proof -
  have drawn: "snd (get_current_frame_with_annotations example_lib
          ([example_image], example_detector\<lparr>fd_current_frame := Some 0,
             fd_detected_faces := [example_detection]\<rparr>)) ! 1
     = [[(0, 255, 0), (0, 255, 0), (0, 255, 0)],
        [(0, 255, 0), (0, 255, 0), (0, 255, 0)],
        [(0, 255, 0), (0, 255, 0), (0, 255, 0)]]"
    by code_simp
  from annotation_copies_frame [of "example_detector\<lparr>fd_current_frame := Some 0,
        fd_detected_faces := [example_detection]\<rparr>" 0 "[example_image]" example_lib]
  have "fd_current_frame (example_detector\<lparr>fd_current_frame := Some 0,
        fd_detected_faces := [example_detection]\<rparr>) = Some 0 \<and>
   (0::nat) < length [example_image] \<and>
   fst (get_current_frame_with_annotations example_lib
          ([example_image], example_detector\<lparr>fd_current_frame := Some 0,
             fd_detected_faces := [example_detection]\<rparr>)) = Some 1 \<and>
   snd (get_current_frame_with_annotations example_lib
          ([example_image], example_detector\<lparr>fd_current_frame := Some 0,
             fd_detected_faces := [example_detection]\<rparr>)) ! 0 = example_image"
    by auto
  with drawn show ?thesis by (simp only: simp_thms)
qed

section \<open>Automatic marking\<close>

lemma all_rows_add [simp]: "all_rows (session_add r d) = all_rows d @ [r]"
  by (simp add: all_rows_def session_add_def)

lemma all_rows_commit [simp]: "all_rows (session_commit d) = all_rows d"
  by (simp add: all_rows_def session_commit_def)

lemma auto_mark_step_cases:
  assumes "auto_mark_step today now (d, m) face = (d', m')"
  shows "(d' = d \<and> m' = m \<and> (\<forall>i. passes_guards d face i \<longrightarrow> first_record d i today \<noteq> None)) \<or>
     (\<exists>i r mm. passes_guards d face i \<and> first_record d i today = None \<and>
        d' = session_add r d \<and> m' = m @ [mm] \<and> ar_student_id r = i \<and> ar_date r = today \<and>
        ar_time_in r = now \<and> ar_status r = ''Present'' \<and>
        ar_confidence_score r = Some (det_confidence face))"
proof (cases "\<exists>i. passes_guards d face i \<and> first_record d i today = None")
  case False
  with assms show ?thesis
    by (auto simp: passes_guards_def truthy_id_def Let_def split: option.splits if_splits)
next
  case True
  then obtain i where i: "passes_guards d face i" "first_record d i today = None" by blast
  then obtain student where s: "student_get d i = Some student"
    by (auto simp: passes_guards_def)
  define r where "r = \<lparr>ar_student_id = i, ar_date = today, ar_time_in = now,
        ar_time_out = None, ar_status = ''Present'',
        ar_confidence_score = Some (det_confidence face)\<rparr>"
  define mm where "mm = \<lparr>ms_name = st_name student, ms_student_id = st_student_id student,
                 ms_status = ''Present'', ms_confidence = det_confidence face\<rparr>"
  from i s assms have "d' = session_add r d \<and> m' = m @ [mm]"
    by (auto simp: passes_guards_def truthy_id_def Let_def r_def mm_def)
  moreover have "ar_student_id r = i \<and> ar_date r = today \<and>
        ar_time_in r = now \<and> ar_status r = ''Present'' \<and>
        ar_confidence_score r = Some (det_confidence face)"
    by (simp add: r_def)
  ultimately have "passes_guards d face i \<and> first_record d i today = None \<and>
        d' = session_add r d \<and> m' = m @ [mm] \<and> ar_student_id r = i \<and> ar_date r = today \<and>
        ar_time_in r = now \<and> ar_status r = ''Present'' \<and>
        ar_confidence_score r = Some (det_confidence face)"
    using i by simp
  then show ?thesis by blast
qed

lemma good_row_mono: "good_row d today now faces r \<Longrightarrow> good_row d today now (faces @ fs) r"
  by (auto simp: good_row_def)

lemma passes_guards_pending:
  "passes_guards (d\<lparr>db_pending := p\<rparr>) face i = passes_guards d face i"
  by (simp add: passes_guards_def student_get_def)

lemma first_record_pending:
  assumes "\<forall>r \<in> set new. ar_date r = today"
  shows "first_record (d\<lparr>db_pending := db_pending d @ new\<rparr>) i today = None \<longleftrightarrow>
     first_record d i today = None \<and> i \<notin> ar_student_id ` set new"
  using assms by (auto simp: first_record_def all_rows_def find_None_iff)

lemma auto_mark_fold:
  "\<exists>new. fst (foldl (auto_mark_step today now) (d, []) faces) = d\<lparr>db_pending := db_pending d @ new\<rparr> \<and>
     length (snd (foldl (auto_mark_step today now) (d, []) faces)) = length new \<and>
     (\<forall>r \<in> set new. good_row d today now faces r) \<and>
     distinct (map ar_student_id new) \<and>
     (\<forall>face \<in> set faces. \<forall>i. passes_guards d face i \<and> first_record d i today = None
         \<longrightarrow> i \<in> ar_student_id ` set new)"
proof (induction faces rule: rev_induct)
  case Nil
  have "d = d\<lparr>db_pending := db_pending d @ []\<rparr>" by simp
  then show ?case by (intro exI[of _ "[]"]) simp
next
  case (snoc face faces)
  obtain dk mk where k: "foldl (auto_mark_step today now) (d, []) faces = (dk, mk)"
    by (cases "foldl (auto_mark_step today now) (d, []) faces")
  with snoc obtain new where n: "dk = d\<lparr>db_pending := db_pending d @ new\<rparr>"
    "length mk = length new" "\<forall>r \<in> set new. good_row d today now faces r"
    "distinct (map ar_student_id new)"
    "\<forall>face \<in> set faces. \<forall>i. passes_guards d face i \<and> first_record d i today = None
         \<longrightarrow> i \<in> ar_student_id ` set new"
    by auto
  from n(3) have dates: "\<forall>r \<in> set new. ar_date r = today" by (simp add: good_row_def)
  have pg: "\<And>f i. passes_guards dk f i = passes_guards d f i"
    by (simp add: n(1) passes_guards_pending)
  have fr: "\<And>i. first_record dk i today = None \<longleftrightarrow>
      first_record d i today = None \<and> i \<notin> ar_student_id ` set new"
    unfolding n(1) using dates by (rule first_record_pending)
  obtain d' m' where st: "auto_mark_step today now (dk, mk) face = (d', m')"
    by (cases "auto_mark_step today now (dk, mk) face")
  with k have res: "foldl (auto_mark_step today now) (d, []) (faces @ [face]) = (d', m')"
    by simp
  from auto_mark_step_cases[OF st] show ?case
  proof
    assume same: "d' = dk \<and> m' = mk \<and>
      (\<forall>i. passes_guards dk face i \<longrightarrow> first_record dk i today \<noteq> None)"
    then have cov: "\<forall>i. passes_guards d face i \<and> first_record d i today = None
         \<longrightarrow> i \<in> ar_student_id ` set new"
      using pg fr by blast
    from n(3) have g: "\<forall>r \<in> set new. good_row d today now (faces @ [face]) r"
      using good_row_mono by blast
    from same n(1,2) res g n(4) n(5) cov show ?thesis
      by (intro exI[of _ new]) auto
  next
    assume "\<exists>i r mm. passes_guards dk face i \<and> first_record dk i today = None \<and>
        d' = session_add r dk \<and> m' = mk @ [mm] \<and> ar_student_id r = i \<and> ar_date r = today \<and>
        ar_time_in r = now \<and> ar_status r = ''Present'' \<and>
        ar_confidence_score r = Some (det_confidence face)"
    then obtain i r mm where a: "passes_guards dk face i" "first_record dk i today = None"
        "d' = session_add r dk" "m' = mk @ [mm]" "ar_student_id r = i" "ar_date r = today"
        "ar_time_in r = now" "ar_status r = ''Present''"
        "ar_confidence_score r = Some (det_confidence face)"
      by blast
    from a(1) pg have pgd: "passes_guards d face i" by simp
    from a(2) fr have fresh: "first_record d i today = None" "i \<notin> ar_student_id ` set new"
      by simp_all
    have d': "d' = d\<lparr>db_pending := db_pending d @ (new @ [r])\<rparr>"
      by (simp add: a(3) n(1) session_add_def)
    have len: "length m' = length (new @ [r])"
      by (simp add: a(4) n(2))
    have gr: "good_row d today now (faces @ [face]) r"
      using a pgd fresh by (auto simp: good_row_def)
    with n(3) have g: "\<forall>x \<in> set (new @ [r]). good_row d today now (faces @ [face]) x"
      using good_row_mono by auto
    from n(4) fresh(2) a(5) have dist: "distinct (map ar_student_id (new @ [r]))"
      by auto
    have cov: "\<forall>f \<in> set (faces @ [face]). \<forall>j. passes_guards d f j \<and> first_record d j today = None
         \<longrightarrow> j \<in> ar_student_id ` set (new @ [r])"
    proof (intro ballI allI impI)
      fix f j
      assume f: "f \<in> set (faces @ [face])"
        and j: "passes_guards d f j \<and> first_record d j today = None"
      show "j \<in> ar_student_id ` set (new @ [r])"
      proof (cases "f \<in> set faces")
        case True
        with n(5) j have "j \<in> ar_student_id ` set new" by blast
        then show ?thesis by auto
      next
        case False
        with f have "f = face" by simp
        with j pgd have "j = i" by (simp add: passes_guards_def)
        with a(5) show ?thesis by auto
      qed
    qed
    from res d' len g dist cov show ?thesis
      by (intro exI[of _ "new @ [r]"]) (simp only: fst_conv snd_conv simp_thms)
  qed
qed


lemma one_row:
  "distinct (map f xs) \<Longrightarrow> i \<in> f ` set xs \<Longrightarrow> length (filter (\<lambda>r. f r = i) xs) = 1"
proof (induction xs)
  case Nil
  then show ?case by simp
next
  case (Cons a xs)
  show ?case
  proof (cases "f a = i")
    case True
    with Cons.prems have "\<forall>r \<in> set xs. f r \<noteq> i" by (auto simp: image_iff)
    then have "filter (\<lambda>r. f r = i) xs = []" by (simp add: filter_empty_conv)
    with True show ?thesis by simp
  next
    case False
    with Cons show ?thesis by auto
  qed
qed

lemma pending_nil: "d\<lparr>db_pending := db_pending d @ []\<rparr> = d"
  by simp

lemma auto_mark_attendance_active:
  assumes "FACE_RECOGNITION_AVAILABLE a" and "app_face_recognition_active a"
    and "app_face_detector a = Some fd"
  shows "\<exists>new.
      snd (auto_mark_attendance today now a) =
        a\<lparr>app_db := (if new = [] then app_db a
                      else session_commit ((app_db a)\<lparr>db_pending := db_pending (app_db a) @ new\<rparr>))\<rparr> \<and>
      (\<forall>r \<in> set new. good_row (app_db a) today now (get_detected_faces fd) r) \<and>
      distinct (map ar_student_id new) \<and>
      (\<forall>face \<in> set (get_detected_faces fd). \<forall>i.
          passes_guards (app_db a) face i \<and> first_record (app_db a) i today = None
            \<longrightarrow> i \<in> ar_student_id ` set new)"
proof -
  let ?d = "app_db a"
  let ?faces = "get_detected_faces fd"
  obtain dk mk where k: "foldl (auto_mark_step today now) (?d, []) ?faces = (dk, mk)"
    by (cases "foldl (auto_mark_step today now) (?d, []) ?faces")
  with auto_mark_fold[of today now ?d ?faces] obtain new where
    n: "dk = ?d\<lparr>db_pending := db_pending ?d @ new\<rparr>" "length mk = length new"
      "\<forall>r \<in> set new. good_row ?d today now ?faces r"
      "distinct (map ar_student_id new)"
      "\<forall>face \<in> set ?faces. \<forall>i. passes_guards ?d face i \<and> first_record ?d i today = None
         \<longrightarrow> i \<in> ar_student_id ` set new"
    by auto
  from n(2) have e: "mk = [] \<longleftrightarrow> new = []" by auto
  have "snd (auto_mark_attendance today now a) =
        a\<lparr>app_db := (if new = [] then ?d else session_commit (?d\<lparr>db_pending := db_pending ?d @ new\<rparr>))\<rparr>"
  proof (cases "new = []")
    case True
    with e n(1) have "mk = []" "dk = ?d" by simp_all
    with assms k True show ?thesis
      by (simp add: auto_mark_attendance_def Let_def)
  next
    case False
    with e have "mk \<noteq> []" by simp
    with assms k n(1) False show ?thesis
      by (simp add: auto_mark_attendance_def Let_def del: str_nat.simps)
  qed
  with n(3,4,5) show ?thesis by blast
qed

text \<open>
  Claim C2, as stated, fails: a published detection with a student id and a confidence
  above 0.3, for a student without a record that day, is not skipped by any of the skips
  the claim lists; when no row of \<^verbatim>\<open>students\<close> has that id (the student was deleted
  after the session started) the loop passes it by and no record is created.
\<close>

theorem auto_mark_attendance_counterexample:
  "det_student_id (example_detection\<lparr>det_student_id := Some 7\<rparr>) = Some 7 \<and>
   det_confidence (example_detection\<lparr>det_student_id := Some 7\<rparr>) > 0.3 \<and>
   first_record example_db 7 739000 = None \<and>
   auto_mark_attendance 739000 example_now
       (example_session [example_detection\<lparr>det_student_id := Some 7\<rparr>])
     = (Json False ''No new students to mark present'' [],
        example_session [example_detection\<lparr>det_student_id := Some 7\<rparr>])"
  by (simp add: auto_mark_attendance_def example_session_def example_app_def example_db_def
      example_students_def example_detection_def example_detector_def get_detected_faces_def
      truthy_id_def student_get_def first_record_def all_rows_def Let_def)

text \<open>
  Claim C2, amended. With face recognition active, \<^verbatim>\<open>auto_mark_attendance\<close> appends
  rows \<open>new\<close> to the attendance rows and changes nothing else of the store. Every new row
  has status \<open>Present\<close>, today's date, and the confidence of a published detection of
  its student that has a student id (not \<^verbatim>\<open>None\<close>, not \<^verbatim>\<open>0\<close>), a confidence above 0.3
  and a row in \<^verbatim>\<open>students\<close>; its student had no record for today. No two new rows are
  for the same student, and every student with such a detection and no record for today
  gets exactly one. The new rows are committed by one \<^verbatim>\<open>commit\<close>, and there is no
  commit when there is no new row.
\<close>

theorem auto_mark_attendance_marks_once:
  assumes "FACE_RECOGNITION_AVAILABLE a" and "app_face_recognition_active a"
    and "app_face_detector a = Some fd"
  shows "\<exists>new.
      all_rows (app_db (snd (auto_mark_attendance today now a))) = all_rows (app_db a) @ new \<and>
      db_students (app_db (snd (auto_mark_attendance today now a))) = db_students (app_db a) \<and>
      db_commits (app_db (snd (auto_mark_attendance today now a)))
        = db_commits (app_db a) + (if new = [] then 0 else 1) \<and>
      (new \<noteq> [] \<longrightarrow>
         db_pending (app_db (snd (auto_mark_attendance today now a))) = [] \<and>
         db_attendance (app_db (snd (auto_mark_attendance today now a)))
           = db_attendance (app_db a) @ db_pending (app_db a) @ new) \<and>
      (\<forall>r \<in> set new. good_row (app_db a) today now (get_detected_faces fd) r) \<and>
      distinct (map ar_student_id new) \<and>
      (\<forall>face \<in> set (get_detected_faces fd). \<forall>i.
          passes_guards (app_db a) face i \<and> first_record (app_db a) i today = None
            \<longrightarrow> length (filter (\<lambda>r. ar_student_id r = i) new) = 1)"
proof -
  from auto_mark_attendance_active[OF assms, of today now] obtain new where
    n: "snd (auto_mark_attendance today now a) =
        a\<lparr>app_db := (if new = [] then app_db a
                      else session_commit ((app_db a)\<lparr>db_pending := db_pending (app_db a) @ new\<rparr>))\<rparr>"
      "\<forall>r \<in> set new. good_row (app_db a) today now (get_detected_faces fd) r"
      "distinct (map ar_student_id new)"
      "\<forall>face \<in> set (get_detected_faces fd). \<forall>i.
          passes_guards (app_db a) face i \<and> first_record (app_db a) i today = None
            \<longrightarrow> i \<in> ar_student_id ` set new"
    by blast
  have one: "length (filter (\<lambda>r. ar_student_id r = i) new) = 1" if "i \<in> ar_student_id ` set new" for i
    using n(3) that by (rule one_row)
  have rows: "all_rows (app_db (snd (auto_mark_attendance today now a))) = all_rows (app_db a) @ new"
    by (simp add: n(1) all_rows_def session_commit_def)
  have st: "db_students (app_db (snd (auto_mark_attendance today now a))) = db_students (app_db a)"
    by (simp add: n(1) session_commit_def)
  have cm: "db_commits (app_db (snd (auto_mark_attendance today now a)))
        = db_commits (app_db a) + (if new = [] then 0 else 1)"
    by (simp add: n(1) session_commit_def)
  have pe: "new \<noteq> [] \<longrightarrow>
         db_pending (app_db (snd (auto_mark_attendance today now a))) = [] \<and>
         db_attendance (app_db (snd (auto_mark_attendance today now a)))
           = db_attendance (app_db a) @ db_pending (app_db a) @ new"
    by (simp add: n(1) session_commit_def)
  from n(4) one have ex: "\<forall>face \<in> set (get_detected_faces fd). \<forall>i.
          passes_guards (app_db a) face i \<and> first_record (app_db a) i today = None
            \<longrightarrow> length (filter (\<lambda>r. ar_student_id r = i) new) = 1"
    by blast
  from rows st cm pe n(2,3) ex show ?thesis by blast
qed

theorem auto_mark_attendance_marks_once_witness:
  "FACE_RECOGNITION_AVAILABLE (example_session example_detections) \<and>
   app_face_recognition_active (example_session example_detections) \<and>
   app_face_detector (example_session example_detections)
     = Some (example_detector\<lparr>fd_is_running := True, fd_detected_faces := example_detections\<rparr>) \<and>
   map ar_student_id
     (all_rows (app_db (snd (auto_mark_attendance 739000 example_now
        (example_session example_detections))))) = [1] \<and>
   map ar_confidence_score
     (all_rows (app_db (snd (auto_mark_attendance 739000 example_now
        (example_session example_detections))))) = [Some (9 / 10)] \<and>
   db_commits (app_db (snd (auto_mark_attendance 739000 example_now
        (example_session example_detections)))) = 1"
  using auto_mark_attendance_marks_once [of "example_session example_detections"
      "example_detector\<lparr>fd_is_running := True, fd_detected_faces := example_detections\<rparr>"
      739000 example_now]
  by (simp add: auto_mark_attendance_def example_session_def example_app_def example_db_def
      example_students_def example_detections_def example_detection_def example_detector_def
      get_detected_faces_def truthy_id_def student_get_def first_record_def all_rows_def Let_def
      session_add_def session_commit_def str_nat_1 del: str_nat.simps)

section \<open>Marking a student present\<close>

lemma first_record_keys: "first_record d i day = None \<longleftrightarrow> (i, day) \<notin> set (keys d)"
  by (auto simp: first_record_def keys_def find_None_iff image_iff)

lemma keys_add_commit: "keys (session_commit (session_add r d)) = keys d @ [(ar_student_id r, ar_date r)]"
  by (simp add: keys_def)

lemma students_add_commit: "db_students (session_commit (session_add r d)) = db_students d"
  by (simp add: session_commit_def session_add_def)

lemma mark_manual_attendance_marked:
  assumes "find (\<lambda>s. st_student_id s = sid \<and> st_is_active s) (db_students d) = Some s"
    and "sid \<noteq> []" and "(st_id s, today) \<in> set (keys d)"
  shows "mark_manual_attendance today now (Some sid) d =
     (Redirect ''mark_attendance'' [(st_name s @ '' already marked present today'', ''warning'')], d)"
proof -
  from assms(3) obtain r where "first_record d (st_id s) today = Some r"
    using first_record_keys[of d "st_id s" today] by (cases "first_record d (st_id s) today") auto
  with assms(1,2) show ?thesis
    by (simp add: mark_manual_attendance_def blank_def)
qed

lemma mark_manual_attendance_not_found:
  assumes "find (\<lambda>s. st_student_id s = sid \<and> st_is_active s) (db_students d) = None"
    and "sid \<noteq> []"
  shows "mark_manual_attendance today now (Some sid) d =
     (Redirect ''mark_attendance'' [(''Student with ID '' @ sid @ '' not found'', ''error'')], d)"
  using assms by (simp add: mark_manual_attendance_def blank_def)

lemma mark_manual_attendance_outcome:
  "(snd (mark_manual_attendance today now form_student_id d) = d \<and>
    (\<exists>msg cat. fst (mark_manual_attendance today now form_student_id d)
        = Redirect ''mark_attendance'' [(msg, cat)] \<and> cat \<noteq> ''success'')) \<or>
   (\<exists>r s sid. form_student_id = Some sid \<and>
      find (\<lambda>s. st_student_id s = sid \<and> st_is_active s) (db_students d) = Some s \<and>
      snd (mark_manual_attendance today now form_student_id d) = session_commit (session_add r d) \<and>
      fst (mark_manual_attendance today now form_student_id d) =
        Redirect ''mark_attendance''
          [(st_name s @ '' marked '' @ lower ''Present'' @ '' at '' @ strftime_hms now, ''success'')] \<and>
      ar_student_id r = st_id s \<and> ar_date r = today \<and> ar_time_in r = now \<and>
      ar_status r = ''Present'' \<and> (st_id s, today) \<notin> set (keys d))"
proof (cases form_student_id)
  case None
  then show ?thesis by (simp add: mark_manual_attendance_def blank_def)
next
  case (Some sid)
  show ?thesis
  proof (cases "sid = []")
    case True
    with Some show ?thesis by (simp add: mark_manual_attendance_def blank_def)
  next
    case False
    show ?thesis
    proof (cases "find (\<lambda>s. st_student_id s = sid \<and> st_is_active s) (db_students d)")
      case None
      with Some False show ?thesis by (simp add: mark_manual_attendance_def blank_def)
    next
      case (Some s)
      note s = this
      show ?thesis
      proof (cases "first_record d (st_id s) today")
        case (Some r0)
        with s False \<open>form_student_id = Some sid\<close> show ?thesis
          by (simp add: mark_manual_attendance_def blank_def)
      next
        case None
        define r where "r = \<lparr>ar_student_id = st_id s, ar_date = today, ar_time_in = now,
              ar_time_out = None, ar_status = ''Present'', ar_confidence_score = Some (1::real)\<rparr>"
        from None s False \<open>form_student_id = Some sid\<close>
        have "mark_manual_attendance today now form_student_id d =
            (Redirect ''mark_attendance''
              [(st_name s @ '' marked '' @ lower ''Present'' @ '' at '' @ strftime_hms now, ''success'')],
             session_commit (session_add r d))"
          by (simp add: mark_manual_attendance_def blank_def r_def Let_def)
        moreover have "ar_student_id r = st_id s \<and> ar_date r = today \<and> ar_time_in r = now \<and>
            ar_status r = ''Present''"
          by (simp add: r_def)
        moreover from None have "(st_id s, today) \<notin> set (keys d)"
          by (simp add: first_record_keys)
        ultimately have "form_student_id = Some sid \<and>
            find (\<lambda>s. st_student_id s = sid \<and> st_is_active s) (db_students d) = Some s \<and>
            snd (mark_manual_attendance today now form_student_id d) = session_commit (session_add r d) \<and>
            fst (mark_manual_attendance today now form_student_id d) =
              Redirect ''mark_attendance''
                [(st_name s @ '' marked '' @ lower ''Present'' @ '' at '' @ strftime_hms now, ''success'')] \<and>
            ar_student_id r = st_id s \<and> ar_date r = today \<and> ar_time_in r = now \<and>
            ar_status r = ''Present'' \<and> (st_id s, today) \<notin> set (keys d)"
          using s \<open>form_student_id = Some sid\<close> by simp
        then show ?thesis by blast
      qed
    qed
  qed
qed

lemma mark_student_present_marked:
  assumes "(i, today) \<in> set (keys d)"
  shows "snd (mark_student_present today now (Inr \<lparr>mr_student_id = Some i, mr_confidence = cf\<rparr>) d) = d"
    and "i \<noteq> 0 \<Longrightarrow> student_get d i = Some s \<Longrightarrow>
      fst (mark_student_present today now (Inr \<lparr>mr_student_id = Some i, mr_confidence = cf\<rparr>) d)
        = Json False (st_name s @ '' already marked present today'') []"
proof -
  from assms obtain r where r: "first_record d i today = Some r"
    using first_record_keys[of d i today] by (cases "first_record d i today") auto
  show "snd (mark_student_present today now (Inr \<lparr>mr_student_id = Some i, mr_confidence = cf\<rparr>) d) = d"
    using r by (simp add: mark_student_present_def truthy_id_def Let_def split: option.splits)
  show "fst (mark_student_present today now (Inr \<lparr>mr_student_id = Some i, mr_confidence = cf\<rparr>) d)
        = Json False (st_name s @ '' already marked present today'') []"
    if "i \<noteq> 0" "student_get d i = Some s"
    using r that by (simp add: mark_student_present_def truthy_id_def Let_def)
qed

lemma mark_student_present_outcome:
  "(snd (mark_student_present today now body d) = d \<and>
    (\<exists>msg. fst (mark_student_present today now body d) = Json False msg [])) \<or>
   (\<exists>r s data i. body = Inr data \<and> mr_student_id data = Some i \<and> student_get d i = Some s \<and>
      snd (mark_student_present today now body d) = session_commit (session_add r d) \<and>
      fst (mark_student_present today now body d) =
        Json True (st_name s @ '' marked '' @ lower ''Present'')
          [(''student_name'', st_name s), (''status'', ''Present''), (''time'', strftime_hms now)] \<and>
      ar_student_id r = i \<and> ar_date r = today \<and> ar_time_in r = now \<and>
      ar_status r = ''Present'' \<and> (i, today) \<notin> set (keys d))"
proof (cases body)
  case (Inl e)
  then show ?thesis by (simp add: mark_student_present_def)
next
  case (Inr data)
  show ?thesis
  proof (cases "mr_student_id data")
    case None
    with Inr show ?thesis by (simp add: mark_student_present_def truthy_id_def Let_def)
  next
    case (Some i)
    note i = this
    show ?thesis
    proof (cases "i = 0")
      case True
      with Inr i show ?thesis by (simp add: mark_student_present_def truthy_id_def Let_def)
    next
      case False
      show ?thesis
      proof (cases "student_get d i")
        case None
        with Inr i False show ?thesis
          by (simp add: mark_student_present_def truthy_id_def Let_def)
      next
        case (Some s)
        note s = this
        show ?thesis
        proof (cases "first_record d i today")
          case (Some r0)
          with Inr i False s show ?thesis
            by (simp add: mark_student_present_def truthy_id_def Let_def)
        next
          case None
          define r where "r = \<lparr>ar_student_id = i, ar_date = today, ar_time_in = now,
              ar_time_out = None, ar_status = ''Present'',
              ar_confidence_score = confidence_of (mr_confidence data)\<rparr>"
          from None Inr i False s
          have "mark_student_present today now body d =
              (Json True (st_name s @ '' marked '' @ lower ''Present'')
                 [(''student_name'', st_name s), (''status'', ''Present''), (''time'', strftime_hms now)],
               session_commit (session_add r d))"
            by (simp add: mark_student_present_def truthy_id_def Let_def r_def)
          moreover have "ar_student_id r = i \<and> ar_date r = today \<and> ar_time_in r = now \<and>
            ar_status r = ''Present''"
            by (simp add: r_def)
          moreover from None have "(i, today) \<notin> set (keys d)"
            by (simp add: first_record_keys)
          ultimately have "body = Inr data \<and> mr_student_id data = Some i \<and> student_get d i = Some s \<and>
              snd (mark_student_present today now body d) = session_commit (session_add r d) \<and>
              fst (mark_student_present today now body d) =
                Json True (st_name s @ '' marked '' @ lower ''Present'')
                  [(''student_name'', st_name s), (''status'', ''Present''), (''time'', strftime_hms now)] \<and>
              ar_student_id r = i \<and> ar_date r = today \<and> ar_time_in r = now \<and>
              ar_status r = ''Present'' \<and> (i, today) \<notin> set (keys d)"
            using Inr i s by simp
          then show ?thesis by blast
        qed
      qed
    qed
  qed
qed

lemma serve_outcome:
  "snd (serve d c) = d \<or>
   (\<exists>r. snd (serve d c) = session_commit (session_add r d) \<and> ar_status r = ''Present'' \<and>
      (ar_student_id r, ar_date r) \<notin> set (keys d))"
proof (cases c)
  case (Manual today now sid)
  with mark_manual_attendance_outcome[of today now sid d] show ?thesis by auto
next
  case (Detected today now body)
  with mark_student_present_outcome[of today now body d] show ?thesis by auto
qed

lemma serve_keys:
  "(distinct (keys d) \<longrightarrow> distinct (keys (snd (serve d c)))) \<and>
   set (keys d) \<subseteq> set (keys (snd (serve d c))) \<and>
   db_students (snd (serve d c)) = db_students d"
  using serve_outcome[of d c] by (auto simp: keys_add_commit students_add_commit)

lemma mark_calls_keys:
  "(distinct (keys d) \<longrightarrow> distinct (keys (mark_calls d calls))) \<and>
   set (keys d) \<subseteq> set (keys (mark_calls d calls)) \<and>
   db_students (mark_calls d calls) = db_students d"
proof (induction calls arbitrary: d)
  case Nil
  show ?case by (simp add: mark_calls_def)
next
  case (Cons c calls)
  have "mark_calls d (c # calls) = mark_calls (snd (serve d c)) calls"
    by (simp add: mark_calls_def)
  with Cons[of "snd (serve d c)"] serve_keys[of d c] show ?case
    by auto
qed

lemma at_most_one_row:
  "distinct (map f xs) \<Longrightarrow> length (filter (\<lambda>r. f r = k) xs) \<le> 1"
proof (induction xs)
  case Nil
  then show ?case by simp
next
  case (Cons a xs)
  show ?case
  proof (cases "f a = k")
    case True
    with Cons.prems have "\<forall>r \<in> set xs. f r \<noteq> k" by (auto simp: image_iff)
    then have "filter (\<lambda>r. f r = k) xs = []" by (simp add: filter_empty_conv)
    with True show ?thesis by simp
  next
    case False
    with Cons show ?thesis by auto
  qed
qed

lemma distinct_keys_count:
  assumes "distinct (keys d)"
  shows "length (filter (\<lambda>r. ar_student_id r = i \<and> ar_date r = day) (all_rows d)) \<le> 1"
proof -
  from assms have "distinct (map (\<lambda>r. (ar_student_id r, ar_date r)) (all_rows d))"
    by (simp add: keys_def)
  then have "length (filter (\<lambda>r. (ar_student_id r, ar_date r) = (i, day)) (all_rows d)) \<le> 1"
    by (rule at_most_one_row)
  then show ?thesis by simp
qed



text \<open>
  Claim C3, as stated, fails on the message of the second attempt: a deactivated student
  marked present through \<^verbatim>\<open>mark_student_present\<close> is not found by
  \<^verbatim>\<open>mark_manual_attendance\<close>, which looks among the active students only and answers
  \<^verbatim>\<open>not found\<close> instead of \<^verbatim>\<open>already marked\<close>.
\<close>

theorem second_mark_counterexample:
  "fst (serve example_db
         (Detected 739000 example_now (Inr \<lparr>mr_student_id = Some 2, mr_confidence = Json_num (9 / 10)\<rparr>)))
     = Json True ''Bilal marked present''
         [(''student_name'', ''Bilal''), (''status'', ''Present''), (''time'', ''10:05:07'')] \<and>
   fst (serve (snd (serve example_db
          (Detected 739000 example_now (Inr \<lparr>mr_student_id = Some 2, mr_confidence = Json_num (9 / 10)\<rparr>))))
         (Manual 739000 example_now (Some ''S002'')))
     = Redirect ''mark_attendance'' [(''Student with ID S002 not found'', ''error'')]"
  by code_simp

text \<open>
  Claim C3, amended. After any sequence of \<^verbatim>\<open>mark_manual_attendance\<close> and
  \<^verbatim>\<open>mark_student_present\<close> requests, on a store that had at most one record per student
  and date (the empty store for one), there is at most one record for every student and
  date. A request that succeeds leaves a record for its student and date, and records
  stay. When the student has a record for the date, a \<^verbatim>\<open>mark_student_present\<close> request
  for the student leaves the store as it is and, the student being in the store, is
  answered \<^verbatim>\<open>already marked\<close>; a \<^verbatim>\<open>mark_manual_attendance\<close> request whose student id
  is that of the student, the student being active, is answered \<^verbatim>\<open>already marked\<close>
  and leaves the store as it is. A manual request whose student id belongs to no active
  student is answered \<^verbatim>\<open>not found\<close> and leaves the store as it is.
\<close>

theorem one_record_per_student_and_day:
  "(distinct (keys d) \<longrightarrow>
      length (filter (\<lambda>r. ar_student_id r = i \<and> ar_date r = day) (all_rows (mark_calls d calls))) \<le> 1) \<and>
   (db_attendance d = [] \<and> db_pending d = [] \<longrightarrow>
      length (filter (\<lambda>r. ar_student_id r = i \<and> ar_date r = day) (all_rows (mark_calls d calls))) \<le> 1) \<and>
   ((i, day) \<in> set (keys d) \<longrightarrow>
      (i, day) \<in> set (keys (mark_calls d calls)) \<and>
      snd (mark_student_present day now (Inr \<lparr>mr_student_id = Some i, mr_confidence = cf\<rparr>) d) = d \<and>
      (\<forall>s. i \<noteq> 0 \<and> student_get d i = Some s \<longrightarrow>
         fst (mark_student_present day now (Inr \<lparr>mr_student_id = Some i, mr_confidence = cf\<rparr>) d)
           = Json False (st_name s @ '' already marked present today'') []) \<and>
      (\<forall>sid s. sid \<noteq> [] \<and> st_id s = i \<and>
         find (\<lambda>s. st_student_id s = sid \<and> st_is_active s) (db_students d) = Some s \<longrightarrow>
         mark_manual_attendance day now (Some sid) d =
           (Redirect ''mark_attendance''
              [(st_name s @ '' already marked present today'', ''warning'')], d))) \<and>
   (\<forall>sid. sid \<noteq> [] \<and>
      find (\<lambda>s. st_student_id s = sid \<and> st_is_active s) (db_students d) = None \<longrightarrow>
      mark_manual_attendance day now (Some sid) d =
        (Redirect ''mark_attendance'' [(''Student with ID '' @ sid @ '' not found'', ''error'')], d)) \<and>
   (\<forall>m x d'. mark_student_present day now (Inr \<lparr>mr_student_id = Some i, mr_confidence = cf\<rparr>) d
        = (Json True m x, d') \<longrightarrow> (i, day) \<in> set (keys d')) \<and>
   (\<forall>sid s msg d'.
      find (\<lambda>s. st_student_id s = sid \<and> st_is_active s) (db_students d) = Some s \<and>
      mark_manual_attendance day now (Some sid) d = (Redirect ''mark_attendance'' [(msg, ''success'')], d')
        \<longrightarrow> (st_id s, day) \<in> set (keys d'))"
proof (intro conjI impI allI)
  show "length (filter (\<lambda>r. ar_student_id r = i \<and> ar_date r = day) (all_rows (mark_calls d calls))) \<le> 1"
    if "distinct (keys d)"
  proof -
    from that mark_calls_keys[of d calls] have "distinct (keys (mark_calls d calls))" by blast
    then show ?thesis by (rule distinct_keys_count)
  qed
  show "length (filter (\<lambda>r. ar_student_id r = i \<and> ar_date r = day) (all_rows (mark_calls d calls))) \<le> 1"
    if "db_attendance d = [] \<and> db_pending d = []"
  proof -
    from that have "distinct (keys d)" by (simp add: keys_def all_rows_def)
    with mark_calls_keys[of d calls] have "distinct (keys (mark_calls d calls))" by blast
    then show ?thesis by (rule distinct_keys_count)
  qed
  show "(i, day) \<in> set (keys (mark_calls d calls))" if "(i, day) \<in> set (keys d)"
    using that mark_calls_keys[of d calls] by blast
  show "snd (mark_student_present day now (Inr \<lparr>mr_student_id = Some i, mr_confidence = cf\<rparr>) d) = d"
    if "(i, day) \<in> set (keys d)"
    using that by (rule mark_student_present_marked(1))
  show "fst (mark_student_present day now (Inr \<lparr>mr_student_id = Some i, mr_confidence = cf\<rparr>) d)
           = Json False (st_name s @ '' already marked present today'') []"
    if "(i, day) \<in> set (keys d)" "i \<noteq> 0 \<and> student_get d i = Some s" for s
    using that mark_student_present_marked(2)[of i day d s now cf] by blast
  show "mark_manual_attendance day now (Some sid) d =
           (Redirect ''mark_attendance''
              [(st_name s @ '' already marked present today'', ''warning'')], d)"
    if "(i, day) \<in> set (keys d)" "sid \<noteq> [] \<and> st_id s = i \<and>
         find (\<lambda>s. st_student_id s = sid \<and> st_is_active s) (db_students d) = Some s" for sid s
    using that mark_manual_attendance_marked[of sid d s day now] by blast
  show "mark_manual_attendance day now (Some sid) d =
        (Redirect ''mark_attendance'' [(''Student with ID '' @ sid @ '' not found'', ''error'')], d)"
    if "sid \<noteq> [] \<and>
      find (\<lambda>s. st_student_id s = sid \<and> st_is_active s) (db_students d) = None" for sid
    using that mark_manual_attendance_not_found[of sid d day now] by blast
  show "(i, day) \<in> set (keys d')"
    if "mark_student_present day now (Inr \<lparr>mr_student_id = Some i, mr_confidence = cf\<rparr>) d
        = (Json True m x, d')" for m x d'
    using that mark_student_present_outcome[of day now "Inr \<lparr>mr_student_id = Some i, mr_confidence = cf\<rparr>" d]
    by (auto simp: keys_add_commit)
  show "(st_id s, day) \<in> set (keys d')"
    if "find (\<lambda>s. st_student_id s = sid \<and> st_is_active s) (db_students d) = Some s \<and>
      mark_manual_attendance day now (Some sid) d = (Redirect ''mark_attendance'' [(msg, ''success'')], d')"
    for sid s msg d'
    using that mark_manual_attendance_outcome[of day now "Some sid" d]
    by (auto simp: keys_add_commit)
qed

theorem one_record_per_student_and_day_witness:
  "distinct (keys example_db) \<and>
   (1, 739000) \<in> set (keys (snd (serve example_db (Manual 739000 example_now (Some ''S001''))))) \<and>
   length (filter (\<lambda>r. ar_student_id r = 1 \<and> ar_date r = 739000)
     (all_rows (mark_calls example_db
        [Manual 739000 example_now (Some ''S001''),
         Detected 739000 example_now (Inr \<lparr>mr_student_id = Some 1, mr_confidence = Missing\<rparr>),
         Manual 739000 example_now (Some ''S001'')]))) = 1 \<and>
   mark_student_present 739000 example_now (Inr \<lparr>mr_student_id = Some 1, mr_confidence = Missing\<rparr>)
       (snd (serve example_db (Manual 739000 example_now (Some ''S001''))))
     = (Json False ''Asha already marked present today'' [],
        snd (serve example_db (Manual 739000 example_now (Some ''S001'')))) \<and>
   mark_manual_attendance 739000 example_now (Some ''S001'')
       (snd (serve example_db (Manual 739000 example_now (Some ''S001''))))
     = (Redirect ''mark_attendance'' [(''Asha already marked present today'', ''warning'')],
        snd (serve example_db (Manual 739000 example_now (Some ''S001''))))"
proof -
  have e: "distinct (keys example_db)"
    "(1, 739000) \<in> set (keys (snd (serve example_db (Manual 739000 example_now (Some ''S001'')))))"
    "student_get (snd (serve example_db (Manual 739000 example_now (Some ''S001'')))) 1
       = Some (example_students ! 0)"
    "find (\<lambda>s. st_student_id s = ''S001'' \<and> st_is_active s)
       (db_students (snd (serve example_db (Manual 739000 example_now (Some ''S001'')))))
       = Some (example_students ! 0)"
    "st_name (example_students ! 0) = ''Asha''" "st_id (example_students ! 0) = 1"
    "length (filter (\<lambda>r. ar_student_id r = 1 \<and> ar_date r = 739000)
     (all_rows (mark_calls example_db
        [Manual 739000 example_now (Some ''S001''),
         Detected 739000 example_now (Inr \<lparr>mr_student_id = Some 1, mr_confidence = Missing\<rparr>),
         Manual 739000 example_now (Some ''S001'')]))) = 1"
    by code_simp+
  note t = one_record_per_student_and_day [of "snd (serve example_db (Manual 739000 example_now (Some ''S001'')))"
      1 739000 "[]" example_now Missing]
  from t e(2,3,5) have a: "mark_student_present 739000 example_now
       (Inr \<lparr>mr_student_id = Some 1, mr_confidence = Missing\<rparr>)
       (snd (serve example_db (Manual 739000 example_now (Some ''S001''))))
     = (Json False ''Asha already marked present today'' [],
        snd (serve example_db (Manual 739000 example_now (Some ''S001''))))"
    by (auto simp: prod_eq_iff)
  from t e(2,4,5,6) have b: "mark_manual_attendance 739000 example_now (Some ''S001'')
       (snd (serve example_db (Manual 739000 example_now (Some ''S001''))))
     = (Redirect ''mark_attendance'' [(''Asha already marked present today'', ''warning'')],
        snd (serve example_db (Manual 739000 example_now (Some ''S001''))))"
    by auto
  from e(1,2,7) a b show ?thesis by simp
qed

section \<open>Every marking flow records \<open>Present\<close>\<close>

lemma auto_mark_attendance_inactive:
  "\<not> (FACE_RECOGNITION_AVAILABLE a \<and> app_face_recognition_active a \<and> app_face_detector a \<noteq> None)
     \<Longrightarrow> snd (auto_mark_attendance today now a) = a"
  by (auto simp: auto_mark_attendance_def split: option.splits)

lemma auto_mark_attendance_new_rows:
  "\<exists>new. all_rows (app_db (snd (auto_mark_attendance today now a))) = all_rows (app_db a) @ new \<and>
     (\<forall>r \<in> set new. ar_status r = ''Present'')"
proof (cases "FACE_RECOGNITION_AVAILABLE a \<and> app_face_recognition_active a \<and> app_face_detector a \<noteq> None")
  case False
  then have "snd (auto_mark_attendance today now a) = a"
    by (rule auto_mark_attendance_inactive)
  then have "all_rows (app_db (snd (auto_mark_attendance today now a))) = all_rows (app_db a) @ [] \<and>
     (\<forall>r \<in> set []. ar_status r = ''Present'')"
    by simp
  then show ?thesis by blast
next
  case True
  then obtain fd where fd: "app_face_detector a = Some fd" by auto
  from True fd auto_mark_attendance_active[of a fd today now] obtain new where
    n: "snd (auto_mark_attendance today now a) =
        a\<lparr>app_db := (if new = [] then app_db a
                      else session_commit ((app_db a)\<lparr>db_pending := db_pending (app_db a) @ new\<rparr>))\<rparr>"
      "\<forall>r \<in> set new. good_row (app_db a) today now (get_detected_faces fd) r"
    by blast
  have "all_rows (app_db (snd (auto_mark_attendance today now a))) = all_rows (app_db a) @ new"
    by (simp add: n(1) all_rows_def session_commit_def)
  moreover from n(2) have "\<forall>r \<in> set new. ar_status r = ''Present''"
    by (simp add: good_row_def)
  ultimately show ?thesis by blast
qed

lemma mark_manual_attendance_new_rows:
  "\<exists>new. all_rows (snd (mark_manual_attendance today now form_student_id d)) = all_rows d @ new \<and>
     (\<forall>r \<in> set new. ar_status r = ''Present'')"
proof -
  from mark_manual_attendance_outcome[of today now form_student_id d]
  show ?thesis
  proof
    assume "snd (mark_manual_attendance today now form_student_id d) = d \<and>
      (\<exists>msg cat. fst (mark_manual_attendance today now form_student_id d)
          = Redirect ''mark_attendance'' [(msg, cat)] \<and> cat \<noteq> ''success'')"
    then have "all_rows (snd (mark_manual_attendance today now form_student_id d)) = all_rows d @ [] \<and>
      (\<forall>r \<in> set []. ar_status r = ''Present'')"
      by simp
    then show ?thesis by blast
  next
    assume "\<exists>r s sid. form_student_id = Some sid \<and>
      find (\<lambda>s. st_student_id s = sid \<and> st_is_active s) (db_students d) = Some s \<and>
      snd (mark_manual_attendance today now form_student_id d) = session_commit (session_add r d) \<and>
      fst (mark_manual_attendance today now form_student_id d) =
        Redirect ''mark_attendance''
          [(st_name s @ '' marked '' @ lower ''Present'' @ '' at '' @ strftime_hms now, ''success'')] \<and>
      ar_student_id r = st_id s \<and> ar_date r = today \<and> ar_time_in r = now \<and>
      ar_status r = ''Present'' \<and> (st_id s, today) \<notin> set (keys d)"
    then obtain r where "snd (mark_manual_attendance today now form_student_id d)
        = session_commit (session_add r d)" "ar_status r = ''Present''"
      by blast
    then have "all_rows (snd (mark_manual_attendance today now form_student_id d)) = all_rows d @ [r] \<and>
      (\<forall>x \<in> set [r]. ar_status x = ''Present'')"
      by simp
    then show ?thesis by blast
  qed
qed

lemma mark_student_present_new_rows:
  "\<exists>new. all_rows (snd (mark_student_present today now body d)) = all_rows d @ new \<and>
     (\<forall>r \<in> set new. ar_status r = ''Present'')"
proof -
  from mark_student_present_outcome[of today now body d]
  show ?thesis
  proof
    assume "snd (mark_student_present today now body d) = d \<and>
      (\<exists>msg. fst (mark_student_present today now body d) = Json False msg [])"
    then have "all_rows (snd (mark_student_present today now body d)) = all_rows d @ [] \<and>
      (\<forall>r \<in> set []. ar_status r = ''Present'')"
      by simp
    then show ?thesis by blast
  next
    assume "\<exists>r s data i. body = Inr data \<and> mr_student_id data = Some i \<and> student_get d i = Some s \<and>
      snd (mark_student_present today now body d) = session_commit (session_add r d) \<and>
      fst (mark_student_present today now body d) =
        Json True (st_name s @ '' marked '' @ lower ''Present'')
          [(''student_name'', st_name s), (''status'', ''Present''), (''time'', strftime_hms now)] \<and>
      ar_student_id r = i \<and> ar_date r = today \<and> ar_time_in r = now \<and>
      ar_status r = ''Present'' \<and> (i, today) \<notin> set (keys d)"
    then obtain r where "snd (mark_student_present today now body d)
        = session_commit (session_add r d)" "ar_status r = ''Present''"
      by blast
    then have "all_rows (snd (mark_student_present today now body d)) = all_rows d @ [r] \<and>
      (\<forall>x \<in> set [r]. ar_status x = ''Present'')"
      by simp
    then show ?thesis by blast
  qed
qed

text \<open>
  Claim C10. The rows that \<^verbatim>\<open>mark_manual_attendance\<close>, \<^verbatim>\<open>mark_student_present\<close> and
  \<^verbatim>\<open>auto_mark_attendance\<close> add to the attendance table all have status \<open>Present\<close>,
  whatever the time of the request: none of them consults \<^verbatim>\<open>get_attendance_status\<close>,
  which would answer \<open>Late\<close> or \<open>Absent\<close> after nine o'clock.
\<close>

theorem marking_flows_record_present:
  "(\<exists>new. all_rows (snd (mark_manual_attendance today now form_student_id d)) = all_rows d @ new \<and>
      (\<forall>r \<in> set new. ar_status r = ''Present'')) \<and>
   (\<exists>new. all_rows (snd (mark_student_present today now body d)) = all_rows d @ new \<and>
      (\<forall>r \<in> set new. ar_status r = ''Present'')) \<and>
   (\<exists>new. all_rows (app_db (snd (auto_mark_attendance today now a))) = all_rows (app_db a) @ new \<and>
      (\<forall>r \<in> set new. ar_status r = ''Present''))"
  using mark_manual_attendance_new_rows[of today now form_student_id d]
    mark_student_present_new_rows[of today now body d]
    auto_mark_attendance_new_rows[of today now a]
  by (simp only: simp_thms)

theorem marking_flows_record_present_witness:
  "get_attendance_status (Some example_now) 15 = Some ''Absent'' \<and>
   map ar_status (all_rows (snd (mark_manual_attendance 739000 example_now (Some ''S001'') example_db)))
     = [''Present''] \<and>
   map ar_status (all_rows (snd (mark_student_present 739000 example_now
      (Inr \<lparr>mr_student_id = Some 1, mr_confidence = Json_num (9 / 10)\<rparr>) example_db)))
     = [''Present''] \<and>
   map ar_status (all_rows (app_db (snd (auto_mark_attendance 739000 example_now
      (example_session example_detections)))))
     = [''Present'']"
proof -
  have e: "get_attendance_status (Some example_now) 15 = Some ''Absent''"
    "map ar_status (all_rows (snd (mark_manual_attendance 739000 example_now (Some ''S001'') example_db)))
     = [''Present'']"
    "map ar_status (all_rows (snd (mark_student_present 739000 example_now
      (Inr \<lparr>mr_student_id = Some 1, mr_confidence = Json_num (9 / 10)\<rparr>) example_db)))
     = [''Present'']"
    "all_rows example_db = []"
    by code_simp+
  have n: "length (all_rows (app_db (snd (auto_mark_attendance 739000 example_now
      (example_session example_detections))))) = 1"
    "all_rows (app_db (example_session example_detections)) = []"
    by code_simp+
  from marking_flows_record_present [of 739000 example_now "Some ''S001''" example_db
      "Inr \<lparr>mr_student_id = Some 1, mr_confidence = Json_num (9 / 10)\<rparr>"
      "example_session example_detections"]
  obtain new where new: "all_rows (app_db (snd (auto_mark_attendance 739000 example_now
      (example_session example_detections)))) = all_rows (app_db (example_session example_detections)) @ new"
    "\<forall>r \<in> set new. ar_status r = ''Present''"
    by blast
  from new n have "map ar_status (all_rows (app_db (snd (auto_mark_attendance 739000 example_now
      (example_session example_detections))))) = [''Present'']"
    by (cases new) auto
  with e show ?thesis by simp
qed

section \<open>Registration needs a face\<close>

lemma validate_student_data_ok:
  "validate_student_data data = [] \<Longrightarrow>
     \<not> blank (f_student_id data) \<and> \<not> blank (f_name data) \<and> \<not> blank (f_email data)"
  by (auto simp: validate_student_data_def split: if_splits)

lemma save_uploaded_file_named:
  "save_uploaded_file file_save upl prefix = Some image_path \<Longrightarrow> up_filename upl \<noteq> []"
  by (auto simp: save_uploaded_file_def split: if_splits)

text \<open>
  Claim C7, as stated, fails when the face modules could not be imported
  (\<^verbatim>\<open>FACE_RECOGNITION_AVAILABLE = False\<close>): the photo is not examined, and a request whose
  photo shows no face registers the student, without an encoding.
\<close>

theorem register_student_counterexample:
  "encode_face_from_image example_lib ''blank.jpg'' = None \<and>
   fst (register_student example_lib example_file_save example_request
         (example_app\<lparr>FACE_RECOGNITION_AVAILABLE := False, app_face_detector := None\<rparr>))
     = Redirect ''students'' [(''Student registered successfully!'', ''success'')] \<and>
   map st_student_id (db_students (app_db (snd (register_student example_lib example_file_save
         example_request
         (example_app\<lparr>FACE_RECOGNITION_AVAILABLE := False, app_face_detector := None\<rparr>)))))
     = [''S001'', ''S002'', ''S009'']"
  by code_simp

text \<open>
  Claim C7, amended. With face recognition available, a registration request whose
  uploaded photo, saved under \<open>image_path\<close>, yields no face encoding is rejected: the
  application state, the student table in it, is as before, and the answer is the
  registration form again; when the request passes the checks made before the photo is
  examined the message is \<^verbatim>\<open>No face detected in the image\<close>.
\<close>

theorem register_student_rejects_without_face:
  assumes "FACE_RECOGNITION_AVAILABLE a"
    and "f_student_id (rq_form rq) = Some student_id"
    and "rq_image rq = Some upl"
    and "save_uploaded_file file_save upl (''student_'' @ student_id @ ''_'') = Some image_path"
    and "encode_face_from_image lib image_path = None"
  shows "snd (register_student lib file_save rq a) = a \<and>
         (\<exists>messages. fst (register_student lib file_save rq a)
            = Render ''register_student.html'' messages) \<and>
         (validate_student_data (rq_form rq) = [] \<and>
          find (\<lambda>s. st_student_id s = student_id) (db_students (app_db a)) = None
            \<longrightarrow> fst (register_student lib file_save rq a)
                  = Render ''register_student.html''
                      [(''No face detected in the image. Please upload a clear photo.'', ''error'')])"
proof -
  from assms(4) have fn: "up_filename upl \<noteq> []" by (rule save_uploaded_file_named)
  have reach: "register_student lib file_save rq a =
      (Render ''register_student.html''
         [(''No face detected in the image. Please upload a clear photo.'', ''error'')], a)"
    if v: "validate_student_data (rq_form rq) = []"
      and ex: "find (\<lambda>s. st_student_id s = student_id) (db_students (app_db a)) = None"
  proof -
    from validate_student_data_ok[OF v] obtain name email where
      "f_name (rq_form rq) = Some name" "f_email (rq_form rq) = Some email"
      by (auto simp: blank_def split: option.splits)
    with v ex fn assms show ?thesis
      by (simp add: register_student_def Let_def)
  qed
  have main: "snd (register_student lib file_save rq a) = a \<and>
         (\<exists>messages. fst (register_student lib file_save rq a)
            = Render ''register_student.html'' messages)"
  proof (cases "validate_student_data (rq_form rq) = []")
    case False
    then show ?thesis by (simp add: register_student_def Let_def)
  next
    case True
    note v = this
    from validate_student_data_ok[OF v] obtain name email where
      ne: "f_name (rq_form rq) = Some name" "f_email (rq_form rq) = Some email"
      by (auto simp: blank_def split: option.splits)
    show ?thesis
    proof (cases "find (\<lambda>s. st_student_id s = student_id) (db_students (app_db a))")
      case (Some existing)
      with v ne assms(2) show ?thesis by (simp add: register_student_def Let_def)
    next
      case None
      with v reach show ?thesis by simp
    qed
  qed
  from main reach show ?thesis by simp
qed

theorem register_student_rejects_without_face_witness:
  "FACE_RECOGNITION_AVAILABLE example_app \<and>
   f_student_id (rq_form example_request) = Some ''S009'' \<and>
   rq_image example_request = Some \<lparr>up_filename = ''blank.jpg''\<rparr> \<and>
   save_uploaded_file example_file_save \<lparr>up_filename = ''blank.jpg''\<rparr> (''student_'' @ ''S009'' @ ''_'')
     = Some ''blank.jpg'' \<and>
   encode_face_from_image example_lib ''blank.jpg'' = None \<and>
   encode_face_from_image example_lib ''a.jpg'' \<noteq> None \<and>
   register_student example_lib example_file_save example_request example_app
     = (Render ''register_student.html''
          [(''No face detected in the image. Please upload a clear photo.'', ''error'')],
        example_app)"
proof -
  have av: "FACE_RECOGNITION_AVAILABLE example_app"
    by (simp add: example_app_def)
  have none: "encode_face_from_image example_lib ''blank.jpg'' = None"
    by code_simp
  have some: "encode_face_from_image example_lib ''a.jpg'' \<noteq> None"
    by (simp add: encode_face_from_image_def example_lib_def example_image_def cvtColor_def
        area_def crop_def py_slice_def resize_def height_def width_def Let_def)
  have rq: "f_student_id (rq_form example_request) = Some ''S009''"
    "rq_image example_request = Some \<lparr>up_filename = ''blank.jpg''\<rparr>"
    "save_uploaded_file example_file_save \<lparr>up_filename = ''blank.jpg''\<rparr>
       (''student_'' @ ''S009'' @ ''_'') = Some ''blank.jpg''"
    "validate_student_data (rq_form example_request) = []"
    "find (\<lambda>s. st_student_id s = ''S009'') (db_students (app_db example_app)) = None"
    by code_simp+
  note t = register_student_rejects_without_face [OF av rq(1) rq(2) rq(3) none]
  from t have s: "snd (register_student example_lib example_file_save example_request example_app)
      = example_app"
    by blast
  from t rq(4,5) have f: "fst (register_student example_lib example_file_save example_request example_app)
      = Render ''register_student.html''
          [(''No face detected in the image. Please upload a clear photo.'', ''error'')]"
    by blast
  from s f have "register_student example_lib example_file_save example_request example_app
     = (Render ''register_student.html''
          [(''No face detected in the image. Please upload a clear photo.'', ''error'')],
        example_app)"
    by (simp add: prod_eq_iff)
  with av rq(1,2,3) none some show ?thesis by (simp only: simp_thms)
qed

end
